theory Spec2Isabelle
  imports Complex_Main "HOL-Library.Product_Lexorder"
begin

section \<open>Python values used by the post-processing script\<close>

text \<open>
  The development embeds \<^verbatim>\<open>src/post_proc.py\<close> (and the loop it shares with
  \<^verbatim>\<open>src/rdf.py\<close>). A Python \<^verbatim>\<open>str\<close> is a \<^typ>\<open>string\<close>; one \<^typ>\<open>char\<close> stands for
  one code point below 256. A text file is the list of the lines its iterator yields
  (each line normally still carrying its final newline).

  Exceptions are values: every function that can raise returns \<open>py_error + 'a\<close>.
\<close>

datatype py_error = ValueError | KeyError | IndexError | AttributeError | OSError

text \<open>
  A Python \<^verbatim>\<open>float\<close>. Finite values are kept as exact rationals: rounding to binary64 and
  overflow are not represented. The two infinities and NaN are values of their own, since
  \<^verbatim>\<open>float()\<close> accepts their spellings.
\<close>

datatype pyfloat = Num rat | PosInf | NegInf | NaN

fun fadd :: "pyfloat \<Rightarrow> pyfloat \<Rightarrow> pyfloat" where
  "fadd (Num a) (Num b) = Num (a + b)"
| "fadd NaN _ = NaN"
| "fadd _ NaN = NaN"
| "fadd PosInf NegInf = NaN"
| "fadd NegInf PosInf = NaN"
| "fadd PosInf _ = PosInf"
| "fadd _ PosInf = PosInf"
| "fadd NegInf _ = NegInf"
| "fadd _ NegInf = NegInf"

text \<open>Division of a float by a positive count (\<^verbatim>\<open>total / n\<close>, the division inside \<^verbatim>\<open>np.mean\<close>).\<close>

fun fdiv_count :: "pyfloat \<Rightarrow> nat \<Rightarrow> pyfloat" where
  "fdiv_count (Num a) n = Num (a / of_nat n)"
| "fdiv_count x n = x"

subsection \<open>String methods\<close>

text \<open>\<^verbatim>\<open>str.isspace\<close> on one character: the white space among the code points below 256.\<close>

definition isspace :: "char \<Rightarrow> bool" where
  "isspace c \<longleftrightarrow> of_char c \<in> {9, 10, 11, 12, 13, 28, 29, 30, 31, 32, 133, 160 :: nat}"

text \<open>\<^verbatim>\<open>s.strip()\<close>\<close>

definition py_strip :: "string \<Rightarrow> string" where
  "py_strip s = rev (dropWhile isspace (rev (dropWhile isspace s)))"

text \<open>\<^verbatim>\<open>s.startswith(p)\<close>\<close>

definition startswith :: "string \<Rightarrow> string \<Rightarrow> bool" where
  "startswith s p \<longleftrightarrow> take (length p) s = p"

text \<open>
  \<^verbatim>\<open>s.split()\<close>: the maximal runs of characters that are not white space. \<open>cur\<close> is the
  run being read, reversed.
\<close>

fun split_run :: "string \<Rightarrow> string \<Rightarrow> string list" where
  "split_run cur [] = (if cur = [] then [] else [rev cur])"
| "split_run cur (c # cs) =
     (if isspace c then (if cur = [] then split_run [] cs else rev cur # split_run [] cs)
      else split_run (c # cur) cs)"

definition py_split :: "string \<Rightarrow> string list" where
  "py_split s = split_run [] s"

text \<open>\<^verbatim>\<open>s.split(sep)\<close> for a one-character separator: every occurrence cuts, empty pieces stay.\<close>

fun split_on :: "char \<Rightarrow> string \<Rightarrow> string list" where
  "split_on sep [] = [[]]"
| "split_on sep (c # cs) =
     (if c = sep then [] # split_on sep cs
      else (case split_on sep cs of [] \<Rightarrow> [[c]] | t # ts \<Rightarrow> (c # t) # ts))"

text \<open>\<^verbatim>\<open>s.split(sep, 1)\<close> when \<open>sep\<close> occurs in \<open>s\<close>: the text before and after the first one.\<close>

definition split_first :: "char \<Rightarrow> string \<Rightarrow> string \<times> string" where
  "split_first sep s = (takeWhile (\<lambda>c. c \<noteq> sep) s, tl (dropWhile (\<lambda>c. c \<noteq> sep) s))"

subsection \<open>The built-in \<^verbatim>\<open>float(str)\<close>\<close>

definition is_digit :: "char \<Rightarrow> bool" where
  "is_digit c \<longleftrightarrow> 48 \<le> (of_char c :: nat) \<and> (of_char c :: nat) \<le> 57"

definition digit_val :: "char \<Rightarrow> nat" where
  "digit_val c = of_char c - 48"

text \<open>The code point of a character with the ASCII capitals mapped to small letters.\<close>

definition lower_code :: "char \<Rightarrow> nat" where
  "lower_code c = (if 65 \<le> (of_char c :: nat) \<and> (of_char c :: nat) \<le> 90 then of_char c + 32 else of_char c)"

text \<open>Comparison without regard to ASCII case, as \<^verbatim>\<open>float()\<close> reads \<^verbatim>\<open>inf\<close> and \<^verbatim>\<open>nan\<close>.\<close>

definition same_nocase :: "string \<Rightarrow> string \<Rightarrow> bool" where
  "same_nocase s t \<longleftrightarrow> map lower_code s = map lower_code t"

text \<open>
  A run of decimal digits in which single underscores may stand between two digits;
  the result is the digits alone, \<open>None\<close> when the text is not such a run.
\<close>

fun digitpart :: "string \<Rightarrow> string option" where
  "digitpart [] = None"
| "digitpart [c] = (if is_digit c then Some [c] else None)"
| "digitpart (c # d # cs) =
     (if is_digit c
      then map_option (Cons c) (if d = CHR ''_'' then digitpart cs else digitpart (d # cs))
      else None)"

definition digits_nat :: "string \<Rightarrow> nat" where
  "digits_nat ds = foldl (\<lambda>a c. 10 * a + digit_val c) 0 ds"

definition opt_digitpart :: "string \<Rightarrow> string option" where
  "opt_digitpart s = (if s = [] then Some [] else digitpart s)"

text \<open>The exponent of a decimal literal: nothing, or \<^verbatim>\<open>e\<close>/\<^verbatim>\<open>E\<close>, an optional sign and digits.\<close>

definition float_exponent :: "string \<Rightarrow> int option" where
  "float_exponent r =
     (case r of
        [] \<Rightarrow> Some 0
      | _ # x \<Rightarrow>
          (case x of
             [] \<Rightarrow> None
           | c # y \<Rightarrow>
               if c = CHR ''-'' then map_option (\<lambda>ds. - int (digits_nat ds)) (digitpart y)
               else if c = CHR ''+'' then map_option (\<lambda>ds. int (digits_nat ds)) (digitpart y)
               else map_option (\<lambda>ds. int (digits_nat ds)) (digitpart x)))"

definition scale10 :: "nat \<Rightarrow> int \<Rightarrow> rat" where
  "scale10 m e = (if 0 \<le> e then of_nat m * 10 ^ nat e else of_nat m / 10 ^ nat (- e))"

text \<open>An unsigned decimal literal: digits, an optional point and digits, an optional exponent.\<close>

definition float_decimal :: "string \<Rightarrow> rat option" where
  "float_decimal u =
     (let is_e = (\<lambda>c. c = CHR ''e'' \<or> c = CHR ''E'');
          mant = takeWhile (\<lambda>c. \<not> is_e c) u;
          expo = dropWhile (\<lambda>c. \<not> is_e c) u;
          ip = takeWhile (\<lambda>c. c \<noteq> CHR ''.'') mant;
          fp = drop 1 (dropWhile (\<lambda>c. c \<noteq> CHR ''.'') mant)
      in case (opt_digitpart ip, opt_digitpart fp, float_exponent expo) of
           (Some ids, Some fds, Some e) \<Rightarrow>
             if ids = [] \<and> fds = [] then None
             else Some (scale10 (digits_nat (ids @ fds)) (e - int (length fds)))
         | _ \<Rightarrow> None)"

text \<open>
  \<^verbatim>\<open>float(s)\<close>: \<open>None\<close> is the \<^verbatim>\<open>ValueError\<close> of a text that is no float literal.
\<close>

definition py_float :: "string \<Rightarrow> pyfloat option" where
  "py_float s =
     (let t = py_strip s;
          neg = startswith t ''-'';
          u = (if startswith t ''-'' \<or> startswith t ''+'' then tl t else t)
      in if same_nocase u ''inf'' \<or> same_nocase u ''infinity''
         then Some (if neg then NegInf else PosInf)
         else if same_nocase u ''nan'' then Some NaN
         else map_option (\<lambda>q. Num (if neg then - q else q)) (float_decimal u))"

section \<open>The density parser\<close>

text \<open>
  The loop of \<^verbatim>\<open>avg_density\<close> over the lines still to read, with the running total \<open>tot\<close> and
  the count \<open>n\<close>. \<^verbatim>\<open>parts[-1]\<close> raises \<^verbatim>\<open>IndexError\<close> on an empty list, which the
  \<^verbatim>\<open>except ValueError\<close> does not catch.
\<close>

fun avg_density_loop :: "string list \<Rightarrow> pyfloat \<Rightarrow> nat \<Rightarrow> py_error + (pyfloat \<times> nat)" where
  "avg_density_loop [] tot n = Inr (tot, n)"
| "avg_density_loop (line # rest) tot n =
     (let s = py_strip line in
      if s = [] \<or> startswith s ''#'' then avg_density_loop rest tot n
      else let parts = py_split s in
        if parts = [] then Inl IndexError
        else (case py_float (last parts) of
                None \<Rightarrow> avg_density_loop rest tot n
              | Some dens \<Rightarrow> avg_density_loop rest (fadd tot dens) (n + 1)))"

definition avg_density :: "string list \<Rightarrow> py_error + pyfloat" where
  "avg_density lines =
     (case avg_density_loop lines (Num 0) 0 of
        Inl e \<Rightarrow> Inl e
      | Inr (tot, n) \<Rightarrow> if n = 0 then Inl ValueError else Inr (fdiv_count tot n))"

section \<open>The last-record key/value parser\<close>

text \<open>The reading loop of \<^verbatim>\<open>last_diff_visc\<close>: \<open>last_s\<close> is the variable \<^verbatim>\<open>last\<close>, the latest retained line, stripped.\<close>

fun last_retained :: "string list \<Rightarrow> string option \<Rightarrow> string option" where
  "last_retained [] last_s = last_s"
| "last_retained (line # rest) last_s =
     (let s = py_strip line in
      if s \<noteq> [] \<and> \<not> startswith s ''#'' then last_retained rest (Some s)
      else last_retained rest last_s)"

text \<open>
  The loop over the comma-separated items of the last line, filling the dictionary
  \<open>fields\<close>. A value that is no float raises \<^verbatim>\<open>ValueError\<close> and ends the loop.
\<close>

fun parse_fields :: "string list \<Rightarrow> (string \<rightharpoonup> pyfloat) \<Rightarrow> py_error + (string \<rightharpoonup> pyfloat)" where
  "parse_fields [] fields = Inr fields"
| "parse_fields (item0 # rest) fields =
     (let item = py_strip item0 in
      if CHR '':'' \<notin> set item then parse_fields rest fields
      else (case split_first (CHR '':'') item of
              (key, val) \<Rightarrow>
                (case py_float (py_strip val) of
                   None \<Rightarrow> Inl ValueError
                 | Some v \<Rightarrow> parse_fields rest (fields(py_strip key \<mapsto> v)))))"

text \<open>\<^verbatim>\<open>return fields["D[H2O]"], fields["viscosity"]\<close>: a missing key raises \<^verbatim>\<open>KeyError\<close>.\<close>

definition required_fields :: "(string \<rightharpoonup> pyfloat) \<Rightarrow> py_error + (pyfloat \<times> pyfloat)" where
  "required_fields fields =
     (case fields ''D[H2O]'' of
        None \<Rightarrow> Inl KeyError
      | Some d \<Rightarrow> (case fields ''viscosity'' of None \<Rightarrow> Inl KeyError | Some v \<Rightarrow> Inr (d, v)))"

definition last_diff_visc :: "string list \<Rightarrow> py_error + (pyfloat \<times> pyfloat)" where
  "last_diff_visc lines =
     (case last_retained lines None of
        None \<Rightarrow> Inl ValueError
      | Some last_s \<Rightarrow>
          (case parse_fields (split_on (CHR '','') last_s) Map.empty of
             Inl e \<Rightarrow> Inl e
           | Inr fields \<Rightarrow> required_fields fields))"

section \<open>The multi-block RDF parser\<close>

text \<open>
  A block is the list of its rows. \<^verbatim>\<open>np.array(current, float)\<close> builds a table from rows
  of one length and raises \<^verbatim>\<open>ValueError\<close> on ragged rows; from no rows at all it
  builds a one-dimensional empty array, kept here as the empty list of rows.
\<close>

type_synonym block = "pyfloat list list"

definition np_array :: "pyfloat list list \<Rightarrow> py_error + block" where
  "np_array rows =
     (if list_all (\<lambda>r. length r = length (hd rows)) rows then Inr rows else Inl ValueError)"

text \<open>\<^verbatim>\<open>[float(x) for x in parts]\<close>\<close>

fun float_row :: "string list \<Rightarrow> py_error + pyfloat list" where
  "float_row [] = Inr []"
| "float_row (x # xs) =
     (case py_float x of
        None \<Rightarrow> Inl ValueError
      | Some v \<Rightarrow> (case float_row xs of Inl e \<Rightarrow> Inl e | Inr vs \<Rightarrow> Inr (v # vs)))"

text \<open>
  The reading loop of \<^verbatim>\<open>process_rdf\<close> (the same loop opens \<^verbatim>\<open>rdf.py\<close>), with the
  blocks closed so far and the rows of the open block; \<open>None\<close> is Python's \<^verbatim>\<open>None\<close>.
  In \<^verbatim>\<open>current.append(...)\<close> the attribute is looked up before the argument is
  evaluated, so \<^verbatim>\<open>None.append\<close> raises before any token is converted.
\<close>

fun rdf_loop ::
  "string list \<Rightarrow> block list \<Rightarrow> pyfloat list list option \<Rightarrow>
   py_error + (block list \<times> pyfloat list list option)" where
  "rdf_loop [] blocks current = Inr (blocks, current)"
| "rdf_loop (line # rest) blocks current =
     (if startswith line ''#'' \<or> py_strip line = [] then rdf_loop rest blocks current
      else let parts = py_split line in
        if length parts = 2 then
          (case current of
             None \<Rightarrow> rdf_loop rest blocks (Some [])
           | Some cur \<Rightarrow>
               (case np_array cur of
                  Inl e \<Rightarrow> Inl e
                | Inr b \<Rightarrow> rdf_loop rest (blocks @ [b]) (Some [])))
        else
          (case current of
             None \<Rightarrow> Inl AttributeError
           | Some cur \<Rightarrow>
               (case float_row parts of
                  Inl e \<Rightarrow> Inl e
                | Inr row \<Rightarrow> rdf_loop rest blocks (Some (cur @ [row])))))"

text \<open>The statements after the loop: the open block, if any, is closed.\<close>

definition close_last ::
  "block list \<Rightarrow> pyfloat list list option \<Rightarrow> py_error + block list" where
  "close_last blocks current =
     (case current of
        None \<Rightarrow> Inr blocks
      | Some cur \<Rightarrow> (case np_array cur of Inl e \<Rightarrow> Inl e | Inr b \<Rightarrow> Inr (blocks @ [b])))"

text \<open>The first part of \<^verbatim>\<open>process_rdf\<close>: the list \<^verbatim>\<open>blocks\<close> as it stands before the test
  \<^verbatim>\<open>if not blocks\<close>.\<close>

definition collect_blocks :: "string list \<Rightarrow> py_error + block list" where
  "collect_blocks lines =
     (case rdf_loop lines [] None of
        Inl e \<Rightarrow> Inl e
      | Inr (blocks, current) \<Rightarrow> close_last blocks current)"

text \<open>
  \<^verbatim>\<open>b[:, j]\<close>: \<^verbatim>\<open>IndexError\<close> on the one-dimensional empty array and on a table with
  no column \<open>j\<close>.
\<close>

definition column :: "block \<Rightarrow> nat \<Rightarrow> py_error + pyfloat list" where
  "column b j =
     (if b = [] then Inl IndexError
      else if j < length (hd b) then Inr (map (\<lambda>row. row ! j) b)
      else Inl IndexError)"

text \<open>\<^verbatim>\<open>[b[:, j] for b in blocks]\<close>\<close>

fun columns :: "block list \<Rightarrow> nat \<Rightarrow> py_error + pyfloat list list" where
  "columns [] j = Inr []"
| "columns (b # bs) j =
     (case column b j of
        Inl e \<Rightarrow> Inl e
      | Inr c \<Rightarrow> (case columns bs j of Inl e \<Rightarrow> Inl e | Inr cs \<Rightarrow> Inr (c # cs)))"

text \<open>
  \<^verbatim>\<open>np.mean(cols, axis=0)\<close> on a non-empty list of one-dimensional arrays (NumPy 1.24 or
  later): arrays of different lengths cannot be stacked (\<^verbatim>\<open>ValueError\<close>); otherwise entry
  \<open>i\<close> is the sum of the entries \<open>i\<close>, added in the order of the list, over the number of
  arrays.
\<close>

definition np_mean_axis0 :: "pyfloat list list \<Rightarrow> py_error + pyfloat list" where
  "np_mean_axis0 cols =
     (if list_all (\<lambda>c. length c = length (hd cols)) cols
      then Inr (map (\<lambda>i. fdiv_count (foldl fadd (hd cols ! i) (map (\<lambda>c. c ! i) (tl cols)))
                                      (length cols))
                    [0 ..< length (hd cols)])
      else Inl ValueError)"

definition mean_column :: "block list \<Rightarrow> nat \<Rightarrow> py_error + pyfloat list" where
  "mean_column blocks j =
     (case columns blocks j of Inl e \<Rightarrow> Inl e | Inr cols \<Rightarrow> np_mean_axis0 cols)"

text \<open>The statements of \<^verbatim>\<open>process_rdf\<close> after the blocks are collected.\<close>

definition average_blocks ::
  "block list \<Rightarrow> py_error + (pyfloat list \<times> pyfloat list \<times> pyfloat list \<times> pyfloat list)" where
  "average_blocks blocks =
     (if blocks = [] then Inl ValueError
      else case column (hd blocks) 1 of
        Inl e \<Rightarrow> Inl e
      | Inr r \<Rightarrow>
          (case mean_column blocks 2 of
             Inl e \<Rightarrow> Inl e
           | Inr g77 \<Rightarrow>
               (case mean_column blocks 4 of
                  Inl e \<Rightarrow> Inl e
                | Inr g88 \<Rightarrow>
                    (case mean_column blocks 6 of
                       Inl e \<Rightarrow> Inl e
                     | Inr g78 \<Rightarrow> Inr (r, g77, g88, g78)))))"

definition process_rdf ::
  "string list \<Rightarrow> py_error + (pyfloat list \<times> pyfloat list \<times> pyfloat list \<times> pyfloat list)" where
  "process_rdf lines =
     (case collect_blocks lines of
        Inl e \<Rightarrow> Inl e
      | Inr blocks \<Rightarrow> average_blocks blocks)"

section \<open>The directory scanner\<close>

text \<open>
  A path is the list of its components below the file-system root, outermost first; the
  root itself is the empty list and its \<^verbatim>\<open>name\<close> is the empty string.
\<close>

type_synonym path = "string list"

definition path_name :: "path \<Rightarrow> string" where
  "path_name p = (if p = [] then [] else last p)"

definition path_parent :: "path \<Rightarrow> path" where
  "path_parent p = butlast p"

text \<open>\<^verbatim>\<open>list(p.parents)\<close>: the proper ancestors, nearest first.\<close>

definition path_parents :: "path \<Rightarrow> path list" where
  "path_parents p = map (\<lambda>n. take n p) (rev [0 ..< length p])"

text \<open>
  \<^verbatim>\<open>TP_DIR_RE.match(name)\<close> for the pattern \<^verbatim>\<open>^T_(\d+)_P_(\d+)$\<close>: the two groups of a match.
  A greedy run of digits is followed by a character that is no digit, so the match needs
  no backtracking. Without the \<^verbatim>\<open>MULTILINE\<close> flag, \<^verbatim>\<open>$\<close> matches at the end of the string
  and also just before a newline that is the last character of the string.
\<close>

definition tp_dir_match :: "string \<Rightarrow> (string \<times> string) option" where
  "tp_dir_match name =
     (if \<not> startswith name ''T_'' then None
      else let r1 = drop 2 name; g1 = takeWhile is_digit r1; r2 = dropWhile is_digit r1 in
        if g1 = [] \<or> \<not> startswith r2 ''_P_'' then None
        else let r3 = drop 3 r2; g2 = takeWhile is_digit r3; r4 = dropWhile is_digit r3 in
          if g2 = [] \<or> \<not> (r4 = [] \<or> r4 = ''\<newline>'') then None
          else Some (g1, g2))"

text \<open>\<^verbatim>\<open>int(g)\<close> for a group of decimal digits.\<close>

definition py_int :: "string \<Rightarrow> int" where
  "py_int g = int (digits_nat g)"

type_synonym key = "int \<times> int"

text \<open>
  The loop of \<^verbatim>\<open>find_tp_ancestor\<close> over \<^verbatim>\<open>[p] + list(p.parents)\<close>; \<open>is_dir\<close> answers
  \<^verbatim>\<open>parent.is_dir()\<close>.
\<close>

fun find_tp_in :: "(path \<Rightarrow> bool) \<Rightarrow> path list \<Rightarrow> (int \<times> int \<times> path) option" where
  "find_tp_in is_dir [] = None"
| "find_tp_in is_dir (parent # more) =
     (if is_dir parent
      then (case tp_dir_match (path_name parent) of
              Some (g1, g2) \<Rightarrow> Some (py_int g1, py_int g2, parent)
            | None \<Rightarrow> find_tp_in is_dir more)
      else find_tp_in is_dir more)"

definition find_tp_ancestor :: "(path \<Rightarrow> bool) \<Rightarrow> path \<Rightarrow> (int \<times> int \<times> path) option" where
  "find_tp_ancestor is_dir p = find_tp_in is_dir (p # path_parents p)"

section \<open>The aggregator\<close>

text \<open>
  A Python \<^verbatim>\<open>dict\<close> whose keys are listed is an association list in insertion order with
  one entry per key. \<^verbatim>\<open>d.setdefault(k, v)\<close> adds the entry only when the key is missing.
\<close>

definition setdefault :: "('k \<times> 'v) list \<Rightarrow> 'k \<Rightarrow> 'v \<Rightarrow> ('k \<times> 'v) list" where
  "setdefault d k v = (if map_of d k = None then d @ [(k, v)] else d)"

text \<open>
  What \<^verbatim>\<open>main\<close> reads of the file system: which paths are directories, the lines of the
  files that can be opened, and the results of the two \<^verbatim>\<open>rglob\<close> searches in the order
  the iterator gives them.
\<close>

datatype file_tree =
  FileTree (is_dir: "path \<Rightarrow> bool") (text_of: "path \<Rightarrow> string list option")
    (density_files: "path list") (calc_files: "path list")

text \<open>The two scanning loops of \<^verbatim>\<open>main\<close>, filling \<^verbatim>\<open>dens_paths\<close> or \<^verbatim>\<open>calc_paths\<close>.\<close>

fun scan_files :: "(path \<Rightarrow> bool) \<Rightarrow> path list \<Rightarrow> (key \<times> path) list \<Rightarrow> (key \<times> path) list" where
  "scan_files isd [] paths = paths"
| "scan_files isd (f # fs) paths =
     (case find_tp_ancestor isd (path_parent f) of
        None \<Rightarrow> scan_files isd fs paths
      | Some (T, P, _) \<Rightarrow> scan_files isd fs (setdefault paths (T, P) f))"

text \<open>\<^verbatim>\<open>path.open(...)\<close> fails with an \<^verbatim>\<open>OSError\<close> on a file that cannot be opened.\<close>

definition open_text :: "file_tree \<Rightarrow> path \<Rightarrow> py_error + string list" where
  "open_text tree p = (case text_of tree p of None \<Rightarrow> Inl OSError | Some ls \<Rightarrow> Inr ls)"

definition avg_density_at :: "file_tree \<Rightarrow> path \<Rightarrow> py_error + pyfloat" where
  "avg_density_at tree p = (case open_text tree p of Inl e \<Rightarrow> Inl e | Inr ls \<Rightarrow> avg_density ls)"

definition last_diff_visc_at :: "file_tree \<Rightarrow> path \<Rightarrow> py_error + (pyfloat \<times> pyfloat)" where
  "last_diff_visc_at tree p =
     (case open_text tree p of Inl e \<Rightarrow> Inl e | Inr ls \<Rightarrow> last_diff_visc ls)"

text \<open>\<^verbatim>\<open>records[key][name] = v\<close> for a key that is present.\<close>

definition set_field ::
  "(key \<times> (string \<rightharpoonup> pyfloat)) list \<Rightarrow> key \<Rightarrow> string \<Rightarrow> pyfloat \<Rightarrow>
   (key \<times> (string \<rightharpoonup> pyfloat)) list" where
  "set_field records k name v =
     map (\<lambda>(k', r). if k' = k then (k', r(name \<mapsto> v)) else (k', r)) records"

text \<open>
  \<^verbatim>\<open>sorted(set(dens_paths) | set(calc_paths), key=lambda k: (k[0], k[1]))\<close>: the keys of
  both dictionaries, each once, in the lexicographic order of the pairs.
\<close>

definition all_keys :: "(key \<times> path) list \<Rightarrow> (key \<times> path) list \<Rightarrow> key list" where
  "all_keys dens_paths calc_paths = sort (remdups (map fst dens_paths @ map fst calc_paths))"

text \<open>
  The body of the loop over \<^verbatim>\<open>all_keys\<close>. \<^verbatim>\<open>except Exception: pass\<close> catches every error of
  the two parsers and keeps the assignments made before it.
\<close>

definition aggregate_key ::
  "file_tree \<Rightarrow> (key \<times> path) list \<Rightarrow> (key \<times> path) list \<Rightarrow>
   (key \<times> (string \<rightharpoonup> pyfloat)) list \<Rightarrow> key \<Rightarrow> (key \<times> (string \<rightharpoonup> pyfloat)) list" where
  "aggregate_key tree dens_paths calc_paths records k =
     (let records1 = setdefault records k Map.empty in
      case (map_of dens_paths k, map_of calc_paths k) of
        (Some dfile, Some cfile) \<Rightarrow>
          (case avg_density_at tree dfile of
             Inl e \<Rightarrow> records1
           | Inr dens \<Rightarrow>
               (let records2 = set_field records1 k ''density'' dens in
                case last_diff_visc_at tree cfile of
                  Inl e \<Rightarrow> records2
                | Inr (diff, visc) \<Rightarrow>
                    set_field (set_field records2 k ''self_diffusion'' diff) k ''viscosity'' visc))
      | _ \<Rightarrow> records1)"

text \<open>The dictionaries \<^verbatim>\<open>dens_paths\<close> and \<^verbatim>\<open>calc_paths\<close> after the two scanning loops.\<close>

definition dens_paths :: "file_tree \<Rightarrow> (key \<times> path) list" where
  "dens_paths tree = scan_files (is_dir tree) (density_files tree) []"

definition calc_paths :: "file_tree \<Rightarrow> (key \<times> path) list" where
  "calc_paths tree = scan_files (is_dir tree) (calc_files tree) []"

text \<open>The part of \<^verbatim>\<open>main\<close> that builds \<^verbatim>\<open>records\<close>.\<close>

definition collect_records :: "file_tree \<Rightarrow> (key \<times> (string \<rightharpoonup> pyfloat)) list" where
  "collect_records tree =
     foldl (aggregate_key tree (dens_paths tree) (calc_paths tree)) []
       (all_keys (dens_paths tree) (calc_paths tree))"

section \<open>The report\<close>

text \<open>\<^verbatim>\<open>str(n)\<close> for an integer, and the format specification \<^verbatim>\<open>:>w\<close>.\<close>

fun str_nat :: "nat \<Rightarrow> string" where
  "str_nat n =
     (if n < 10 then [''0123456789'' ! n]
      else str_nat (n div 10) @ [''0123456789'' ! (n mod 10)])"

declare str_nat.simps [simp del]

definition str_int :: "int \<Rightarrow> string" where
  "str_int i = (if i < 0 then CHR ''-'' # str_nat (nat (- i)) else str_nat (nat i))"

definition rjust :: "nat \<Rightarrow> string \<Rightarrow> string" where
  "rjust w s = replicate (w - length s) (CHR '' '') @ s"

definition header_line :: string where
  "header_line =
     rjust 8 ''T(K)'' @ '' '' @ rjust 8 ''P(bar)'' @ '' '' @ rjust 12 ''Density'' @ '' ''
     @ rjust 15 ''SelfDiff'' @ '' '' @ rjust 15 ''Viscosity''"

text \<open>
  One line of the table. \<open>fixed\<close> and \<open>sci\<close> stand for Python's float formatting under
  \<^verbatim>\<open>12.6f\<close> and \<^verbatim>\<open>15.6e\<close>, which this development does not define. Every value stored in
  a record is a \<^verbatim>\<open>float\<close>, so \<^verbatim>\<open>isinstance(x, float)\<close> holds exactly when \<^verbatim>\<open>rec.get\<close> finds
  the field.
\<close>

definition result_row ::
  "(pyfloat \<Rightarrow> string) \<Rightarrow> (pyfloat \<Rightarrow> string) \<Rightarrow> key \<Rightarrow> (string \<rightharpoonup> pyfloat) \<Rightarrow> string" where
  "result_row fixed sci k rec =
     (case (rec ''density'', rec ''self_diffusion'', rec ''viscosity'') of
        (Some dens, Some diff, Some visc) \<Rightarrow>
          rjust 8 (str_int (fst k)) @ '' '' @ rjust 8 (str_int (snd k)) @ '' ''
          @ fixed dens @ '' '' @ sci diff @ '' '' @ sci visc
      | _ \<Rightarrow>
          rjust 8 (str_int (fst k)) @ '' '' @ rjust 8 (str_int (snd k)) @ '' ''
          @ rjust 12 ''MISSING'' @ '' '' @ rjust 15 '''' @ '' '' @ rjust 15 '''')"

text \<open>The rows for the keys still to write; \<^verbatim>\<open>records[(T, P)]\<close> raises \<^verbatim>\<open>KeyError\<close> on a
  missing key.\<close>

fun result_rows ::
  "(pyfloat \<Rightarrow> string) \<Rightarrow> (pyfloat \<Rightarrow> string) \<Rightarrow> (key \<times> (string \<rightharpoonup> pyfloat)) list \<Rightarrow>
   key list \<Rightarrow> py_error + string list" where
  "result_rows fixed sci records [] = Inr []"
| "result_rows fixed sci records (k # ks) =
     (case map_of records k of
        None \<Rightarrow> Inl KeyError
      | Some rec \<Rightarrow>
          (case result_rows fixed sci records ks of
             Inl e \<Rightarrow> Inl e
           | Inr rows \<Rightarrow> Inr (result_row fixed sci k rec # rows)))"

text \<open>\<^verbatim>\<open>"\n".join(lines)\<close>\<close>

fun join_lines :: "string list \<Rightarrow> string" where
  "join_lines [] = []"
| "join_lines [l] = l"
| "join_lines (l # ls) = l @ ''\<newline>'' @ join_lines ls"

text \<open>The list \<^verbatim>\<open>lines\<close> of \<^verbatim>\<open>write_results_txt\<close>, and the text written to \<^verbatim>\<open>results.txt\<close>.\<close>

definition results_lines ::
  "(pyfloat \<Rightarrow> string) \<Rightarrow> (pyfloat \<Rightarrow> string) \<Rightarrow> (key \<times> (string \<rightharpoonup> pyfloat)) list \<Rightarrow>
   py_error + string list" where
  "results_lines fixed sci records =
     (case result_rows fixed sci records (sort (map fst records)) of
        Inl e \<Rightarrow> Inl e
      | Inr rows \<Rightarrow> Inr (header_line # rows))"

definition write_results_txt ::
  "(pyfloat \<Rightarrow> string) \<Rightarrow> (pyfloat \<Rightarrow> string) \<Rightarrow> (key \<times> (string \<rightharpoonup> pyfloat)) list \<Rightarrow>
   py_error + string" where
  "write_results_txt fixed sci records =
     (case results_lines fixed sci records of Inl e \<Rightarrow> Inl e | Inr ls \<Rightarrow> Inr (join_lines ls))"

section \<open>Notions used to state the properties\<close>

text \<open>
  The definitions of this section are not code of the script: they name what the
  properties below speak about.
\<close>

text \<open>A line the density and key/value parsers retain: not blank, and no comment.\<close>

definition retained :: "string \<Rightarrow> bool" where
  "retained line \<longleftrightarrow> py_strip line \<noteq> [] \<and> \<not> startswith (py_strip line) ''#''"

text \<open>The last white-space separated token of a line.\<close>

definition last_token :: "string \<Rightarrow> string" where
  "last_token line = last (py_split (py_strip line))"

text \<open>
  The samples of a density file: the float values of the last tokens of the retained
  lines, in file order, the lines whose last token is no float left out.
\<close>

definition density_samples :: "string list \<Rightarrow> pyfloat list" where
  "density_samples lines =
     List.map_filter (\<lambda>line. py_float (last_token line)) (filter retained lines)"

text \<open>The mean of a list of floats as Python computes \<^verbatim>\<open>sum(xs) / len(xs)\<close>.\<close>

definition fmean :: "pyfloat list \<Rightarrow> pyfloat" where
  "fmean xs = fdiv_count (foldl fadd (Num 0) xs) (length xs)"

text \<open>The items of a key/value line, and the key and the value an item with a colon gives.\<close>

definition line_items :: "string \<Rightarrow> string list" where
  "line_items line = split_on (CHR '','') (py_strip line)"

definition has_colon :: "string \<Rightarrow> bool" where
  "has_colon item \<longleftrightarrow> CHR '':'' \<in> set (py_strip item)"

definition item_key :: "string \<Rightarrow> string" where
  "item_key item = py_strip (fst (split_first (CHR '':'') (py_strip item)))"

definition item_value :: "string \<Rightarrow> pyfloat option" where
  "item_value item = py_float (py_strip (snd (split_first (CHR '':'') (py_strip item))))"

text \<open>The keys a key/value line defines, in the order of its items.\<close>

definition line_keys :: "string \<Rightarrow> string list" where
  "line_keys line = map item_key (filter has_colon (line_items line))"

text \<open>
  Lines of an RDF file: the ones the loop skips, the two-token header lines that open a
  block, and the data lines.
\<close>

definition rdf_skipped :: "string \<Rightarrow> bool" where
  "rdf_skipped line \<longleftrightarrow> startswith line ''#'' \<or> py_strip line = []"

definition is_header :: "string \<Rightarrow> bool" where
  "is_header line \<longleftrightarrow> \<not> rdf_skipped line \<and> length (py_split line) = 2"

definition is_data :: "string \<Rightarrow> bool" where
  "is_data line \<longleftrightarrow> \<not> rdf_skipped line \<and> length (py_split line) \<noteq> 2"


text \<open>The radial column of a block, and the element-wise mean of column \<open>j\<close> over blocks.\<close>

definition radial :: "block \<Rightarrow> pyfloat list" where
  "radial b = map (\<lambda>row. row ! 1) b"

definition mean_over :: "block list \<Rightarrow> nat \<Rightarrow> pyfloat list" where
  "mean_over blocks j =
     map (\<lambda>i. fmean (map (\<lambda>b. b ! i ! j) blocks)) [0 ..< length (hd blocks)]"

text \<open>
  Blocks that can be averaged: at least one block, every block with at least one row and
  at least seven columns, and all blocks with the row count of the first. Nothing is
  asked of the column counts of different blocks.
\<close>

definition well_shaped :: "block list \<Rightarrow> bool" where
  "well_shaped blocks \<longleftrightarrow>
     blocks \<noteq> [] \<and>
     list_all (\<lambda>b. b \<noteq> [] \<and> 6 < length (hd b) \<and> length b = length (hd blocks)) blocks"

text \<open>A table: all rows have the length of the first.\<close>

definition rectangular :: "block \<Rightarrow> bool" where
  "rectangular b \<longleftrightarrow> list_all (\<lambda>r. length r = length (hd b)) b"




text \<open>The condition key the scanner gives a found file, if any.\<close>

definition key_of :: "(path \<Rightarrow> bool) \<Rightarrow> path \<Rightarrow> key option" where
  "key_of isd f = map_option (\<lambda>(T, P, _). (T, P)) (find_tp_ancestor isd (path_parent f))"

text \<open>
  The record of a condition key as the files of the key determine it: empty unless the key
  has both a density file and a key/value file and the density parse succeeds; then the
  density alone when the key/value parse fails, and all three fields otherwise.
\<close>

definition record_of ::
  "file_tree \<Rightarrow> (key \<times> path) list \<Rightarrow> (key \<times> path) list \<Rightarrow> key \<Rightarrow> (string \<rightharpoonup> pyfloat)" where
  "record_of tree dp cp k =
     (case (map_of dp k, map_of cp k) of
        (Some dfile, Some cfile) \<Rightarrow>
          (case avg_density_at tree dfile of
             Inl e \<Rightarrow> Map.empty
           | Inr dens \<Rightarrow>
               (case last_diff_visc_at tree cfile of
                  Inl e \<Rightarrow> [''density'' \<mapsto> dens]
                | Inr (diff, visc) \<Rightarrow>
                    [''density'' \<mapsto> dens, ''self_diffusion'' \<mapsto> diff, ''viscosity'' \<mapsto> visc]))
      | _ \<Rightarrow> Map.empty)"

text \<open>The row written for a record that lacks a field.\<close>

definition missing_row :: "key \<Rightarrow> string" where
  "missing_row k =
     rjust 8 (str_int (fst k)) @ '' '' @ rjust 8 (str_int (snd k)) @ '' ''
     @ ''     MISSING'' @ '' '' @ replicate 15 (CHR '' '') @ '' '' @ replicate 15 (CHR '' '')"

text \<open>
  A small tree of results used to run the aggregator: condition (313, 1) with a density
  file, a second density file deeper in the same directory and a key/value file;
  condition (400, 1) with a density file only; condition (500, 2) with a density file and
  a key/value file that lacks the viscosity; and a density file under no condition
  directory. The lists of found files give an order in which the searches may report them.
\<close>

definition example_tree :: file_tree where
  "example_tree =
     FileTree (\<lambda>p. True)
       [[''run'', ''T_313_P_1'', ''GlobalPropsTimeAvg.prop''] \<mapsto>
          [''1 2 3 1000.0\<newline>'', ''1 2 3 1002.0\<newline>'', ''# comment\<newline>''],
        [''run'', ''T_313_P_1'', ''rerun'', ''GlobalPropsTimeAvg.prop''] \<mapsto>
          [''1 2 3 5.0\<newline>''],
        [''run'', ''T_313_P_1'', ''GlobalPropCalculated.prop''] \<mapsto>
          [''time:0, D[H2O]:1e-9, viscosity:0.5\<newline>'',
           ''time:1, D[H2O]:2e-9, viscosity:0.6\<newline>''],
        [''run'', ''T_400_P_1'', ''GlobalPropsTimeAvg.prop''] \<mapsto>
          [''1 2 3 900.0\<newline>''],
        [''run'', ''T_500_P_2'', ''GlobalPropsTimeAvg.prop''] \<mapsto>
          [''1 2 3 800.5\<newline>''],
        [''run'', ''T_500_P_2'', ''GlobalPropCalculated.prop''] \<mapsto>
          [''time:1, D[H2O]:2e-9\<newline>''],
        [''run'', ''misc'', ''GlobalPropsTimeAvg.prop''] \<mapsto>
          [''1 2 3 7.0\<newline>'']]
       [[''run'', ''T_500_P_2'', ''GlobalPropsTimeAvg.prop''],
        [''run'', ''T_313_P_1'', ''GlobalPropsTimeAvg.prop''],
        [''run'', ''T_313_P_1'', ''rerun'', ''GlobalPropsTimeAvg.prop''],
        [''run'', ''T_400_P_1'', ''GlobalPropsTimeAvg.prop''],
        [''run'', ''misc'', ''GlobalPropsTimeAvg.prop'']]
       [[''run'', ''T_500_P_2'', ''GlobalPropCalculated.prop''],
        [''run'', ''T_313_P_1'', ''GlobalPropCalculated.prop'']]"

section \<open>Evaluation on concrete inputs\<close>

lemmas str_eval = py_strip_def isspace_def startswith_def py_split_def split_first_def
lemmas float_eval = float_decimal_def opt_digitpart_def is_digit_def digit_val_def digits_nat_def
  scale10_def float_exponent_def py_float_def lower_code_def same_nocase_def
lemmas spec_eval = retained_def last_token_def density_samples_def
  has_colon_def item_key_def item_value_def line_items_def

section \<open>The density parser: properties\<close>

lemma split_run_nonempty:
  "cur \<noteq> [] \<or> (\<exists>c \<in> set s. \<not> isspace c) \<Longrightarrow> split_run cur s \<noteq> []"
  by (induction s arbitrary: cur) auto

lemma strip_has_nonspace:
  assumes "py_strip s \<noteq> []"
  shows "\<exists>c \<in> set (py_strip s). \<not> isspace c"
proof -
  let ?d = "dropWhile isspace (rev (dropWhile isspace s))"
  from assms have ne: "?d \<noteq> []" by (simp add: py_strip_def)
  then have "\<not> isspace (hd ?d)" by (rule hd_dropWhile)
  moreover from ne have "hd ?d \<in> set ?d" by simp
  ultimately show ?thesis by (auto simp: py_strip_def)
qed

lemma split_strip_nonempty: "py_strip s \<noteq> [] \<Longrightarrow> py_split (py_strip s) \<noteq> []"
  unfolding py_split_def by (rule split_run_nonempty) (simp add: strip_has_nonspace)

lemma density_samples_Nil [simp]: "density_samples [] = []"
  by (simp add: density_samples_def)

lemma density_samples_Cons:
  "density_samples (line # rest) =
     (if retained line
      then (case py_float (last_token line) of None \<Rightarrow> density_samples rest
            | Some v \<Rightarrow> v # density_samples rest)
      else density_samples rest)"
  by (simp add: density_samples_def split: option.splits)

lemma avg_density_loop_eq:
  "avg_density_loop lines tot n =
     Inr (foldl fadd tot (density_samples lines), n + length (density_samples lines))"
proof (induction lines arbitrary: tot n)
  case Nil
  show ?case by simp
next
  case (Cons line rest)
  show ?case
  proof (cases "retained line")
    case False
    then show ?thesis
      by (auto simp: Cons.IH density_samples_Cons retained_def Let_def)
  next
    case True
    then have "py_split (py_strip line) \<noteq> []"
      by (simp add: retained_def split_strip_nonempty)
    with True show ?thesis
      by (auto simp: Cons.IH density_samples_Cons retained_def last_token_def Let_def
               split: option.splits)
  qed
qed

lemma avg_density_eq:
  "avg_density lines =
     (if density_samples lines = [] then Inl ValueError else Inr (fmean (density_samples lines)))"
  by (simp add: avg_density_def avg_density_loop_eq fmean_def)





section \<open>The key/value parser: properties\<close>

lemma last_retained_eq:
  "last_retained lines acc =
     (if filter retained lines = [] then acc else Some (py_strip (last (filter retained lines))))"
  by (induction lines arbitrary: acc) (auto simp: retained_def Let_def)

lemma parse_fields_skip:
  "parse_fields items fields = parse_fields (filter has_colon items) fields"
  by (induction items arbitrary: fields) (auto simp: has_colon_def Let_def split: prod.splits option.splits)

lemma parse_fields_bad_value:
  "\<exists>item \<in> set items. has_colon item \<and> item_value item = None \<Longrightarrow>
   parse_fields items fields = Inl ValueError"
proof (induction items arbitrary: fields)
  case Nil
  then show ?case by simp
next
  case (Cons item rest)
  show ?case
  proof (cases "has_colon item")
    case False
    with Cons show ?thesis by (auto simp: has_colon_def Let_def)
  next
    case True
    show ?thesis
    proof (cases "item_value item")
      case None
      with True show ?thesis
        by (auto simp: has_colon_def item_value_def Let_def split: prod.splits)
    next
      case (Some v)
      with True Cons.prems have "\<exists>i \<in> set rest. has_colon i \<and> item_value i = None" by auto
      then have "parse_fields rest f = Inl ValueError" for f by (rule Cons.IH)
      with True Some show ?thesis
        by (auto simp: has_colon_def item_value_def Let_def split: prod.splits)
    qed
  qed
qed

lemma parse_fields_dom:
  "parse_fields items fields = Inr f \<Longrightarrow>
   dom f = dom fields \<union> item_key ` {i \<in> set items. has_colon i}"
proof (induction items arbitrary: fields)
  case Nil
  then show ?case by simp
next
  case (Cons item rest)
  show ?case
  proof (cases "has_colon item")
    case False
    with Cons.prems have "parse_fields rest fields = Inr f" by (simp add: has_colon_def Let_def)
    from Cons.IH[OF this] False show ?thesis by auto
  next
    case True
    with Cons.prems obtain v where v: "item_value item = Some v"
      and r: "parse_fields rest (fields(item_key item \<mapsto> v)) = Inr f"
      by (auto simp: has_colon_def item_value_def item_key_def Let_def split: prod.splits option.splits)
    have "dom f = dom (fields(item_key item \<mapsto> v)) \<union> item_key ` {i \<in> set rest. has_colon i}"
      by (rule Cons.IH[OF r])
    also have "dom (fields(item_key item \<mapsto> v)) = insert (item_key item) (dom fields)"
      by simp
    finally show ?thesis using True by auto
  qed
qed

lemma last_diff_visc_last:
  "last_diff_visc lines =
     (if filter retained lines = [] then Inl ValueError
      else last_diff_visc [last (filter retained lines)])"
proof (cases "filter retained lines = []")
  case True
  then show ?thesis by (simp add: last_diff_visc_def last_retained_eq)
next
  case False
  then have "last (filter retained lines) \<in> set (filter retained lines)" by (rule last_in_set)
  then have "retained (last (filter retained lines))" by simp
  with False show ?thesis by (simp add: last_diff_visc_def last_retained_eq)
qed

lemma last_diff_visc_single:
  "retained l \<Longrightarrow>
   last_diff_visc [l] =
     (case parse_fields (line_items l) Map.empty of Inl e \<Rightarrow> Inl e | Inr f \<Rightarrow> required_fields f)"
  by (simp add: last_diff_visc_def last_retained_eq line_items_def)

lemma required_fields_missing:
  "''D[H2O]'' \<notin> dom f \<or> ''viscosity'' \<notin> dom f \<Longrightarrow> required_fields f = Inl KeyError"
  by (auto simp: required_fields_def dom_def split: option.splits)

lemma density_samples_drop_bad:
  "py_float (last_token l) = None \<Longrightarrow> density_samples (xs @ l # ys) = density_samples (xs @ ys)"
  by (simp add: density_samples_def List.map_filter_def)

lemma parse_fields_error: "parse_fields items fields = Inl e \<Longrightarrow> e = ValueError"
  by (induction items arbitrary: fields) (auto simp: Let_def split: if_splits prod.splits option.splits)

lemma last_diff_visc_retained:
  assumes ne: "filter retained lines \<noteq> []"
  shows "last_diff_visc lines =
      (case parse_fields (line_items (last (filter retained lines))) Map.empty of
         Inl e \<Rightarrow> Inl e | Inr f \<Rightarrow> required_fields f)"
proof -
  let ?l = "last (filter retained lines)"
  from ne have "?l \<in> set (filter retained lines)" by (rule last_in_set)
  then have ret: "retained ?l" by simp
  have "last_diff_visc lines = last_diff_visc [?l]"
    using ne by (simp add: last_diff_visc_last)
  also have "\<dots> = (case parse_fields (line_items ?l) Map.empty of
         Inl e \<Rightarrow> Inl e | Inr f \<Rightarrow> required_fields f)"
    using ret by (rule last_diff_visc_single)
  finally show ?thesis .
qed

lemma last_diff_visc_missing_key:
  assumes ne: "filter retained lines \<noteq> []"
    and miss: "''D[H2O]'' \<notin> set (line_keys (last (filter retained lines)))
               \<or> ''viscosity'' \<notin> set (line_keys (last (filter retained lines)))"
  shows "last_diff_visc lines = Inl KeyError \<or> last_diff_visc lines = Inl ValueError"
proof -
  let ?l = "last (filter retained lines)"
  note eq = last_diff_visc_retained[OF ne]
  show ?thesis
  proof (cases "parse_fields (line_items ?l) Map.empty")
    case (Inr f)
    have "dom f = dom (Map.empty :: string \<rightharpoonup> pyfloat) \<union> item_key ` {i \<in> set (line_items ?l). has_colon i}"
      by (rule parse_fields_dom[OF Inr])
    then have "dom f = set (line_keys ?l)"
      by (simp add: line_keys_def)
    with miss have "''D[H2O]'' \<notin> dom f \<or> ''viscosity'' \<notin> dom f" by simp
    then have "required_fields f = Inl KeyError"
      by (rule required_fields_missing)
    with eq Inr show ?thesis by simp
  next
    case (Inl e)
    then have "e = ValueError" by (rule parse_fields_error)
    with eq Inl show ?thesis by simp
  qed
qed

lemma last_diff_visc_bad_value:
  assumes ne: "filter retained lines \<noteq> []"
    and bad: "\<exists>item \<in> set (line_items (last (filter retained lines))).
                has_colon item \<and> item_value item = None"
  shows "last_diff_visc lines = Inl ValueError"
  using parse_fields_bad_value[OF bad] by (simp add: last_diff_visc_retained[OF ne])

lemmas kv_eval = last_diff_visc_def required_fields_def Let_def

text \<open>
  C4: only the final retained line of a key/value file determines the result of
  \<^verbatim>\<open>last_diff_visc\<close>, whatever the earlier lines hold; the two-line file of the scenario
  gives (2e-9, 0.6); a file with no retained line raises \<^verbatim>\<open>ValueError\<close>, and a final
  retained line that lacks one of the two required keys raises an error (\<^verbatim>\<open>KeyError\<close>,
  or the \<^verbatim>\<open>ValueError\<close> of a value that is no float).
\<close>

theorem last_diff_visc_final_line:
  "(retained l \<longrightarrow> last_diff_visc (earlier @ [l]) = last_diff_visc [l])
   \<and> (filter retained lines \<noteq> [] \<longrightarrow>
        last_diff_visc lines = last_diff_visc [last (filter retained lines)])
   \<and> (filter retained lines = [] \<longrightarrow> last_diff_visc lines = Inl ValueError)
   \<and> (filter retained lines \<noteq> [] \<and>
        (''D[H2O]'' \<notin> set (line_keys (last (filter retained lines))) \<or>
         ''viscosity'' \<notin> set (line_keys (last (filter retained lines)))) \<longrightarrow>
        last_diff_visc lines = Inl KeyError \<or> last_diff_visc lines = Inl ValueError)
   \<and> last_diff_visc [''time:0, D[H2O]:1e-9, viscosity:0.5\<newline>'',
                      ''time:1, D[H2O]:2e-9, viscosity:0.6\<newline>'']
       = Inr (Num (2 / 10 ^ 9), Num (6 / 10))"
proof (intro conjI impI)
  assume "retained l"
  then show "last_diff_visc (earlier @ [l]) = last_diff_visc [l]"
    by (simp add: last_diff_visc_retained)
next
  assume ne: "filter retained lines \<noteq> []"
  then have "last (filter retained lines) \<in> set (filter retained lines)" by (rule last_in_set)
  then have "retained (last (filter retained lines))" by simp
  then show "last_diff_visc lines = last_diff_visc [last (filter retained lines)]"
    by (simp add: last_diff_visc_retained[OF ne] last_diff_visc_single)
next
  assume "filter retained lines = []"
  then show "last_diff_visc lines = Inl ValueError"
    by (simp add: last_diff_visc_def last_retained_eq)
next
  assume "filter retained lines \<noteq> [] \<and>
        (''D[H2O]'' \<notin> set (line_keys (last (filter retained lines))) \<or>
         ''viscosity'' \<notin> set (line_keys (last (filter retained lines))))"
  then show "last_diff_visc lines = Inl KeyError \<or> last_diff_visc lines = Inl ValueError"
    by (intro last_diff_visc_missing_key) simp_all
next
  show "last_diff_visc [''time:0, D[H2O]:1e-9, viscosity:0.5\<newline>'',
                      ''time:1, D[H2O]:2e-9, viscosity:0.6\<newline>'']
       = Inr (Num (2 / 10 ^ 9), Num (6 / 10))"
    by (simp add: kv_eval str_eval float_eval)
qed

theorem last_diff_visc_final_line_witness:
  "retained ''D[H2O]: 3, viscosity: 4 \<newline>''
   \<and> last_diff_visc ([''viscosity: oops\<newline>'', ''1 2 3\<newline>''] @ [''D[H2O]: 3, viscosity: 4 \<newline>''])
       = last_diff_visc [''D[H2O]: 3, viscosity: 4 \<newline>'']
   \<and> last_diff_visc [''D[H2O]: 3, viscosity: 4 \<newline>''] = Inr (Num 3, Num 4)
   \<and> filter retained [''D[H2O]:1e-9, viscosity:0.5\<newline>'', ''time:1, D[H2O]:2e-9\<newline>'', ''# end\<newline>'']
       = [''D[H2O]:1e-9, viscosity:0.5\<newline>'', ''time:1, D[H2O]:2e-9\<newline>'']
   \<and> ''viscosity'' \<notin> set (line_keys ''time:1, D[H2O]:2e-9\<newline>'')
   \<and> last_diff_visc [''D[H2O]:1e-9, viscosity:0.5\<newline>'', ''time:1, D[H2O]:2e-9\<newline>'', ''# end\<newline>'']
       = Inl KeyError
   \<and> filter retained [''# nothing\<newline>'', ''\<newline>''] = []
   \<and> last_diff_visc [''# nothing\<newline>'', ''\<newline>''] = Inl ValueError"
proof -
  let ?l = "''D[H2O]: 3, viscosity: 4 \<newline>''"
  let ?e = "[''viscosity: oops\<newline>'', ''1 2 3\<newline>'']"
  let ?f = "[''D[H2O]:1e-9, viscosity:0.5\<newline>'', ''time:1, D[H2O]:2e-9\<newline>'', ''# end\<newline>'']"
  let ?n = "[''# nothing\<newline>'', ''\<newline>'']"
  note main = last_diff_visc_final_line
  have r: "retained ?l" by (simp add: retained_def str_eval)
  have a: "last_diff_visc (?e @ [?l]) = last_diff_visc [?l]"
    using main [of ?l ?e "[]", THEN conjunct1] r by (rule mp)
  have b: "last_diff_visc [?l] = Inr (Num 3, Num 4)"
    by (simp add: kv_eval str_eval float_eval)
  have f: "filter retained ?f = [''D[H2O]:1e-9, viscosity:0.5\<newline>'', ''time:1, D[H2O]:2e-9\<newline>'']"
    by (simp add: retained_def str_eval)
  have k: "''viscosity'' \<notin> set (line_keys ''time:1, D[H2O]:2e-9\<newline>'')"
    by (simp add: line_keys_def spec_eval str_eval)
  have "filter retained ?f \<noteq> [] \<and>
        (''D[H2O]'' \<notin> set (line_keys (last (filter retained ?f))) \<or>
         ''viscosity'' \<notin> set (line_keys (last (filter retained ?f))))"
    unfolding f using k by simp
  with main [of "[]" "[]" ?f, THEN conjunct2, THEN conjunct2, THEN conjunct2, THEN conjunct1]
  have "last_diff_visc ?f = Inl KeyError \<or> last_diff_visc ?f = Inl ValueError"
    by (rule mp)
  moreover have "last_diff_visc ?f \<noteq> Inl ValueError"
    by (simp add: kv_eval str_eval float_eval)
  ultimately have c: "last_diff_visc ?f = Inl KeyError" by simp
  have n: "filter retained ?n = []" by (simp add: retained_def str_eval)
  have d: "last_diff_visc ?n = Inl ValueError"
    using main [of "[]" "[]" ?n, THEN conjunct2, THEN conjunct2, THEN conjunct1] n by (rule mp)
  show ?thesis by (intro conjI r a b f k c n d)
qed

text \<open>
  C9: in the key/value parser an item of the final retained line without a colon is
  skipped, but an item whose text after the first colon is no float makes the whole
  parse fail with \<^verbatim>\<open>ValueError\<close>; the density parser, in contrast, skips a line whose
  last token is no float.
\<close>

theorem last_diff_visc_bad_segment:
  "parse_fields items fields = parse_fields (filter has_colon items) fields
   \<and> (filter retained lines \<noteq> [] \<and>
        (\<exists>item \<in> set (line_items (last (filter retained lines))).
            has_colon item \<and> item_value item = None) \<longrightarrow>
        last_diff_visc lines = Inl ValueError)
   \<and> (py_float (last_token l) = None \<longrightarrow> avg_density (xs @ l # ys) = avg_density (xs @ ys))"
proof (intro conjI impI)
  show "parse_fields items fields = parse_fields (filter has_colon items) fields"
    by (rule parse_fields_skip)
next
  assume "filter retained lines \<noteq> [] \<and>
        (\<exists>item \<in> set (line_items (last (filter retained lines))).
            has_colon item \<and> item_value item = None)"
  then show "last_diff_visc lines = Inl ValueError"
    by (intro last_diff_visc_bad_value) simp_all
next
  assume "py_float (last_token l) = None"
  then show "avg_density (xs @ l # ys) = avg_density (xs @ ys)"
    by (simp add: avg_density_eq density_samples_drop_bad)
qed

theorem last_diff_visc_bad_segment_witness:
  "filter retained [''D[H2O]:1e-9, viscosity:0.5\<newline>'', ''no colon here, D[H2O]:2e-9, viscosity:n/a\<newline>'']
     = [''D[H2O]:1e-9, viscosity:0.5\<newline>'', ''no colon here, D[H2O]:2e-9, viscosity:n/a\<newline>'']
   \<and> line_items ''no colon here, D[H2O]:2e-9, viscosity:n/a\<newline>''
     = [''no colon here'', '' D[H2O]:2e-9'', '' viscosity:n/a'']
   \<and> \<not> has_colon ''no colon here''
   \<and> has_colon '' viscosity:n/a'' \<and> item_value '' viscosity:n/a'' = None
   \<and> last_diff_visc [''D[H2O]:1e-9, viscosity:0.5\<newline>'', ''no colon here, D[H2O]:2e-9, viscosity:n/a\<newline>'']
     = Inl ValueError
   \<and> last_diff_visc [''no colon here, D[H2O]:2e-9, viscosity:0.6\<newline>''] = Inr (Num (2 / 10 ^ 9), Num (6 / 10))
   \<and> py_float (last_token ''1 2 3 n/a\<newline>'') = None
   \<and> avg_density ([''1 2 3 1000.0\<newline>''] @ ''1 2 3 n/a\<newline>'' # [''1 2 3 1002.0\<newline>''])
     = avg_density ([''1 2 3 1000.0\<newline>''] @ [''1 2 3 1002.0\<newline>''])
   \<and> avg_density ([''1 2 3 1000.0\<newline>''] @ [''1 2 3 1002.0\<newline>'']) = Inr (Num 1001)"
proof -
  let ?b = "''no colon here, D[H2O]:2e-9, viscosity:n/a\<newline>''"
  let ?f = "[''D[H2O]:1e-9, viscosity:0.5\<newline>'', ?b]"
  note main = last_diff_visc_bad_segment
  have f: "filter retained ?f = ?f" by (simp add: retained_def str_eval)
  have i: "line_items ?b = [''no colon here'', '' D[H2O]:2e-9'', '' viscosity:n/a'']"
    by (simp add: line_items_def str_eval)
  have n: "\<not> has_colon ''no colon here''" by (simp add: has_colon_def str_eval)
  have h: "has_colon '' viscosity:n/a''" by (simp add: has_colon_def str_eval)
  have v: "item_value '' viscosity:n/a'' = None"
    by (simp add: item_value_def str_eval float_eval)
  have "filter retained ?f \<noteq> [] \<and>
        (\<exists>item \<in> set (line_items (last (filter retained ?f))).
            has_colon item \<and> item_value item = None)"
    unfolding f using h v by (simp add: i)
  with main [of "[]" Map.empty ?f "[]" "[]" "[]", THEN conjunct2, THEN conjunct1]
  have e: "last_diff_visc ?f = Inl ValueError" by (rule mp)
  have g: "last_diff_visc [''no colon here, D[H2O]:2e-9, viscosity:0.6\<newline>''] = Inr (Num (2 / 10 ^ 9), Num (6 / 10))"
    by (simp add: kv_eval str_eval float_eval)
  have p: "py_float (last_token ''1 2 3 n/a\<newline>'') = None"
    by (simp add: last_token_def str_eval float_eval)
  have d: "avg_density ([''1 2 3 1000.0\<newline>''] @ ''1 2 3 n/a\<newline>'' # [''1 2 3 1002.0\<newline>''])
     = avg_density ([''1 2 3 1000.0\<newline>''] @ [''1 2 3 1002.0\<newline>''])"
    using main [of "[]" Map.empty "[]" "''1 2 3 n/a\<newline>''" "[''1 2 3 1000.0\<newline>'']" "[''1 2 3 1002.0\<newline>'']",
        THEN conjunct2, THEN conjunct2] p by (rule mp)
  have m: "avg_density ([''1 2 3 1000.0\<newline>''] @ [''1 2 3 1002.0\<newline>'']) = Inr (Num 1001)"
    by (simp add: avg_density_def str_eval float_eval)
  show ?thesis by (intro conjI f i n h v e g p d m)
qed

section \<open>The RDF parser: properties\<close>

lemma fadd_zero_left [simp]: "fadd (Num 0) x = x"
  by (cases x) simp_all

lemma fdiv_count_one [simp]: "fdiv_count x (Suc 0) = x"
  by (cases x) simp_all

lemma fdiv_count_double [simp]: "fdiv_count (fadd x x) 2 = x"
  by (cases x) simp_all

lemma rdf_loop_append:
  "rdf_loop (xs @ ys) blocks current =
     (case rdf_loop xs blocks current of
        Inl e \<Rightarrow> Inl e
      | Inr (blocks', current') \<Rightarrow> rdf_loop ys blocks' current')"
  by (induction xs blocks current rule: rdf_loop.induct)
     (auto simp: Let_def split: option.splits sum.splits)

lemma rdf_loop_skipped:
  "\<forall>x \<in> set pre. rdf_skipped x \<Longrightarrow> rdf_loop pre blocks current = Inr (blocks, current)"
  by (induction pre) (auto simp: rdf_skipped_def)

lemma rdf_loop_data_None:
  "is_data l \<Longrightarrow> rdf_loop (l # rest) blocks None = Inl AttributeError"
  by (auto simp: is_data_def rdf_skipped_def Let_def)



lemmas rdf_eval = rdf_skipped_def is_header_def is_data_def

text \<open>
  C10: when the first line of an RDF file that is neither a comment nor blank is not a
  two-token header, \<^verbatim>\<open>process_rdf\<close> fails with the \<^verbatim>\<open>AttributeError\<close> of appending to
  \<^verbatim>\<open>None\<close>; the \<^verbatim>\<open>ValueError\<close> of "No RDF blocks found" is what a file of skipped lines
  only gives.
\<close>

theorem process_rdf_data_before_header:
  "((\<forall>x \<in> set pre. rdf_skipped x) \<and> is_data l \<longrightarrow>
      process_rdf (pre @ l # rest) = Inl AttributeError)
   \<and> ((\<forall>x \<in> set lines. rdf_skipped x) \<longrightarrow> process_rdf lines = Inl ValueError)"
proof (intro conjI impI)
  assume a: "(\<forall>x \<in> set pre. rdf_skipped x) \<and> is_data l"
  then have "rdf_loop pre [] None = Inr ([], None)" by (simp add: rdf_loop_skipped)
  moreover from a have "rdf_loop (l # rest) [] None = Inl AttributeError"
    by (intro rdf_loop_data_None) simp
  ultimately have "rdf_loop (pre @ l # rest) [] None = Inl AttributeError"
    by (simp add: rdf_loop_append)
  then show "process_rdf (pre @ l # rest) = Inl AttributeError"
    by (simp add: process_rdf_def collect_blocks_def)
next
  assume "\<forall>x \<in> set lines. rdf_skipped x"
  then have "rdf_loop lines [] None = Inr ([], None)" by (rule rdf_loop_skipped)
  then show "process_rdf lines = Inl ValueError"
    by (simp add: process_rdf_def collect_blocks_def close_last_def average_blocks_def)
qed

theorem process_rdf_data_before_header_witness:
  "rdf_skipped ''# rdf\<newline>'' \<and> rdf_skipped ''\<newline>''
   \<and> is_data ''1 0.5 1.0 0 2.0 0 3.0\<newline>''
   \<and> process_rdf ([''# rdf\<newline>'', ''\<newline>''] @ ''1 0.5 1.0 0 2.0 0 3.0\<newline>'' # [''100 2\<newline>'', ''1 0.5 1.0 0 2.0 0 3.0\<newline>''])
       = Inl AttributeError
   \<and> process_rdf [''# rdf\<newline>'', ''\<newline>''] = Inl ValueError"
proof -
  note main = process_rdf_data_before_header
  have s1: "rdf_skipped ''# rdf\<newline>''" and s2: "rdf_skipped ''\<newline>''"
    by (simp_all add: rdf_eval str_eval)
  from s1 s2 have s: "\<forall>x \<in> set [''# rdf\<newline>'', ''\<newline>'']. rdf_skipped x"
    by simp
  have d: "is_data ''1 0.5 1.0 0 2.0 0 3.0\<newline>''"
    by (simp add: rdf_eval str_eval)
  from s d have sd: "(\<forall>x \<in> set [''# rdf\<newline>'', ''\<newline>'']. rdf_skipped x)
      \<and> is_data ''1 0.5 1.0 0 2.0 0 3.0\<newline>''" by (rule conjI)
  have a: "process_rdf ([''# rdf\<newline>'', ''\<newline>''] @ ''1 0.5 1.0 0 2.0 0 3.0\<newline>'' # [''100 2\<newline>'', ''1 0.5 1.0 0 2.0 0 3.0\<newline>''])
       = Inl AttributeError"
    using main [THEN conjunct1] sd by (rule mp)
  have v: "process_rdf [''# rdf\<newline>'', ''\<newline>''] = Inl ValueError"
    using main [THEN conjunct2] s by (rule mp)
  show ?thesis by (intro conjI s1 s2 d a v)
qed

lemma columns_ok:
  "list_all (\<lambda>b. b \<noteq> [] \<and> j < length (hd b)) blocks \<Longrightarrow>
   columns blocks j = Inr (map (\<lambda>b. map (\<lambda>row. row ! j) b) blocks)"
  by (induction blocks) (auto simp: column_def)

lemma columns_Inr:
  "columns blocks j = Inr cols \<Longrightarrow>
   list_all (\<lambda>b. b \<noteq> [] \<and> j < length (hd b)) blocks
   \<and> cols = map (\<lambda>b. map (\<lambda>row. row ! j) b) blocks"
  by (induction blocks arbitrary: cols) (auto simp: column_def split: sum.splits if_splits)

lemma foldl_fadd_hd:
  "cols \<noteq> [] \<Longrightarrow>
   foldl fadd (hd cols ! i) (map (\<lambda>c. c ! i) (tl cols)) = foldl fadd (Num 0) (map (\<lambda>c. c ! i) cols)"
  by (cases cols) simp_all

lemma np_mean_axis0_eq:
  "cols \<noteq> [] \<Longrightarrow>
   np_mean_axis0 cols =
     (if list_all (\<lambda>c. length c = length (hd cols)) cols
      then Inr (map (\<lambda>i. fmean (map (\<lambda>c. c ! i) cols)) [0 ..< length (hd cols)])
      else Inl ValueError)"
  by (simp add: np_mean_axis0_def fmean_def foldl_fadd_hd)

lemma mean_column_eq:
  assumes "blocks \<noteq> []"
  shows "mean_column blocks j =
     (if list_all (\<lambda>b. b \<noteq> [] \<and> j < length (hd b)) blocks
      then (if list_all (\<lambda>b. length b = length (hd blocks)) blocks
            then Inr (mean_over blocks j) else Inl ValueError)
      else Inl IndexError)"
proof (cases "list_all (\<lambda>b. b \<noteq> [] \<and> j < length (hd b)) blocks")
  case True
  let ?cols = "map (\<lambda>b. map (\<lambda>row. row ! j) b) blocks"
  have c: "columns blocks j = Inr ?cols" using True by (rule columns_ok)
  have ne: "?cols \<noteq> []" using assms by simp
  have hd: "length (hd ?cols) = length (hd blocks)" using assms by (simp add: hd_map)
  have la: "list_all (\<lambda>c. length c = length (hd ?cols)) ?cols
        \<longleftrightarrow> list_all (\<lambda>b. length b = length (hd blocks)) blocks"
    unfolding hd by (simp add: list_all_iff)
  show ?thesis
  proof (cases "list_all (\<lambda>b. length b = length (hd blocks)) blocks")
    case False
    with True c ne la show ?thesis by (simp add: mean_column_def np_mean_axis0_eq)
  next
    case same: True
    have "map (\<lambda>i. fmean (map (\<lambda>c. c ! i) ?cols)) [0 ..< length (hd blocks)] = mean_over blocks j"
      unfolding mean_over_def
    proof (rule map_cong[OF refl])
      fix i assume "i \<in> set [0 ..< length (hd blocks)]"
      then have i: "i < length (hd blocks)" by simp
      have "map (\<lambda>c. c ! i) ?cols = map (\<lambda>b. b ! i ! j) blocks"
        using same i by (auto simp: list_all_iff)
      then show "fmean (map (\<lambda>c. c ! i) ?cols) = fmean (map (\<lambda>b. b ! i ! j) blocks)"
        by (rule arg_cong)
    qed
    with True same c ne la hd show ?thesis by (simp add: mean_column_def np_mean_axis0_eq)
  qed
next
  case False
  have "\<exists>e. columns blocks j = Inl e"
  proof (cases "columns blocks j")
    case (Inr cols)
    from columns_Inr[OF Inr] False show ?thesis by simp
  qed simp
  moreover have "columns blocks j = Inl e \<Longrightarrow> e = IndexError" for e
    by (induction blocks) (auto simp: column_def split: sum.splits if_splits)
  ultimately have "columns blocks j = Inl IndexError" by auto
  with False show ?thesis by (simp add: mean_column_def)
qed

lemma well_shaped_iff:
  "well_shaped blocks \<longleftrightarrow>
     blocks \<noteq> [] \<and> (\<forall>b \<in> set blocks. b \<noteq> [] \<and> 6 < length (hd b))
     \<and> (\<forall>b \<in> set blocks. length b = length (hd blocks))"
  unfolding well_shaped_def list_all_iff by blast

lemma well_shaped_cols:
  assumes "well_shaped blocks" and "j \<le> 6"
  shows "list_all (\<lambda>b. b \<noteq> [] \<and> j < length (hd b)) blocks"
  unfolding list_all_iff
proof
  fix b assume "b \<in> set blocks"
  with assms(1) have "b \<noteq> [] \<and> 6 < length (hd b)"
    unfolding well_shaped_iff by blast
  with assms(2) show "b \<noteq> [] \<and> j < length (hd b)" by linarith
qed

lemma well_shaped_rows:
  "well_shaped blocks \<Longrightarrow> list_all (\<lambda>b. length b = length (hd blocks)) blocks"
  unfolding well_shaped_iff list_all_iff by blast

lemma well_shaped_nonempty: "well_shaped blocks \<Longrightarrow> blocks \<noteq> []"
  unfolding well_shaped_iff by blast

lemma mean_column_ok:
  assumes ws: "well_shaped blocks" and j: "j \<le> 6"
  shows "mean_column blocks j = Inr (mean_over blocks j)"
  by (simp add: mean_column_eq[OF well_shaped_nonempty[OF ws]]
      well_shaped_cols[OF ws j] well_shaped_rows[OF ws])

lemma average_blocks_ok:
  assumes "well_shaped blocks"
  shows "average_blocks blocks =
     Inr (radial (hd blocks), mean_over blocks 2, mean_over blocks 4, mean_over blocks 6)"
proof -
  from assms have ne: "blocks \<noteq> []" by (rule well_shaped_nonempty)
  then have "hd blocks \<in> set blocks" by simp
  with assms have "hd blocks \<noteq> [] \<and> 6 < length (hd (hd blocks))"
    unfolding well_shaped_iff by blast
  then have r: "column (hd blocks) 1 = Inr (radial (hd blocks))"
    by (simp add: column_def radial_def)
  show ?thesis
    using ne r by (simp add: average_blocks_def mean_column_ok[OF assms])
qed

lemma average_blocks_Inr:
  assumes "average_blocks blocks = Inr res"
  shows "well_shaped blocks"
proof -
  from assms have ne: "blocks \<noteq> []" by (auto simp: average_blocks_def split: if_splits)
  from assms ne obtain g where "mean_column blocks 6 = Inr g"
    by (auto simp: average_blocks_def split: sum.splits)
  then have "list_all (\<lambda>b. b \<noteq> [] \<and> 6 < length (hd b)) blocks
      \<and> list_all (\<lambda>b. length b = length (hd blocks)) blocks"
    by (simp add: mean_column_eq[OF ne] split: if_splits)
  with ne show ?thesis unfolding well_shaped_iff list_all_iff by blast
qed

lemma average_blocks_rows_differ:
  assumes "blocks \<noteq> []" and "list_all (\<lambda>b. b \<noteq> [] \<and> 6 < length (hd b)) blocks"
    and "\<not> list_all (\<lambda>b. length b = length (hd blocks)) blocks"
  shows "average_blocks blocks = Inl ValueError"
proof -
  from assms(1) have "hd blocks \<in> set blocks" by simp
  with assms(2) have "hd blocks \<noteq> [] \<and> 6 < length (hd (hd blocks))"
    by (auto simp: list_all_iff)
  then have r: "column (hd blocks) 1 = Inr (radial (hd blocks))"
    by (simp add: column_def radial_def)
  from assms(2) have "list_all (\<lambda>b. b \<noteq> [] \<and> 2 < length (hd b)) blocks"
    by (auto simp: list_all_iff)
  with assms have "mean_column blocks 2 = Inl ValueError"
    by (simp add: mean_column_eq)
  with assms(1) r show ?thesis by (simp add: average_blocks_def)
qed







lemma fmean_single [simp]: "fmean [x] = x"
  by (simp add: fmean_def)

lemma fmean_pair [simp]: "fmean [x, x] = x"
proof -
  have "fmean [x, x] = fdiv_count (fadd x x) 2" by (simp add: fmean_def numeral_2_eq_2)
  then show ?thesis by simp
qed




lemma np_array_Inr: "np_array rows = Inr b \<Longrightarrow> b = rows \<and> rectangular b"
  by (auto simp: np_array_def rectangular_def split: if_splits)

lemma rdf_loop_rectangular:
  "rdf_loop lines blocks current = Inr (blocks', current') \<Longrightarrow>
   list_all rectangular blocks \<Longrightarrow> list_all rectangular blocks'"
proof (induction lines blocks current rule: rdf_loop.induct)
  case (1 blocks current)
  then show ?case by simp
next
  case (2 line rest blocks current)
  show ?case
  proof (cases "startswith line ''#'' \<or> py_strip line = []")
    case True
    with 2 show ?thesis by simp
  next
    case False
    show ?thesis
    proof (cases "length (py_split line) = 2")
      case hdr: True
      show ?thesis
      proof (cases current)
        case None
        with 2 False hdr show ?thesis by (simp add: Let_def)
      next
        case (Some cur)
        with "2.prems" False hdr obtain b where b: "np_array cur = Inr b"
          and r: "rdf_loop rest (blocks @ [b]) (Some []) = Inr (blocks', current')"
          by (auto simp: Let_def split: sum.splits)
        from b have "rectangular b" by (simp add: np_array_Inr)
        with "2.prems"(2) have "list_all rectangular (blocks @ [b])" by simp
        with "2.IH"(3)[OF False refl hdr Some b r] show ?thesis .
      qed
    next
      case dat: False
      show ?thesis
      proof (cases current)
        case None
        with "2.prems" False dat show ?thesis by (simp add: Let_def)
      next
        case (Some cur)
        with "2.prems" False dat obtain row where row: "float_row (py_split line) = Inr row"
          and r: "rdf_loop rest blocks (Some (cur @ [row])) = Inr (blocks', current')"
          by (auto simp: Let_def split: sum.splits)
        from "2.IH"(4)[OF False refl dat Some row r "2.prems"(2)] show ?thesis .
      qed
    qed
  qed
qed

lemma collect_blocks_rectangular:
  assumes "collect_blocks lines = Inr blocks"
  shows "list_all rectangular blocks"
proof -
  from assms obtain bs cur where l: "rdf_loop lines [] None = Inr (bs, cur)"
    and c: "close_last bs cur = Inr blocks"
    by (auto simp: collect_blocks_def split: sum.splits)
  from rdf_loop_rectangular[OF l] have bs: "list_all rectangular bs" by simp
  show ?thesis
  proof (cases cur)
    case None
    with c bs show ?thesis by (simp add: close_last_def)
  next
    case (Some rows)
    with c obtain b where "np_array rows = Inr b" and "blocks = bs @ [b]"
      by (auto simp: close_last_def split: sum.splits)
    with bs show ?thesis by (simp add: np_array_Inr)
  qed
qed

lemmas rdf_run = process_rdf_def collect_blocks_def close_last_def np_array_def average_blocks_def
  mean_column_def column_def np_mean_axis0_def Let_def







text \<open>
  C2, as stated, fails: two blocks of one row each, the first with seven columns and the
  second with eight, are averaged without complaint.
\<close>

theorem rdf_column_layout_counterexample:
  "collect_blocks [''100 2\<newline>'', ''1 0.5 1.0 0 2.0 0 3.0\<newline>'',
                   ''200 2\<newline>'', ''1 0.5 3.0 0 4.0 0 5.0 9.0\<newline>'']
     = Inr [[map Num [1, 1 / 2, 1, 0, 2, 0, 3]], [map Num [1, 1 / 2, 3, 0, 4, 0, 5, 9]]]
   \<and> length (map Num [1, 1 / 2, 1, 0, 2, 0, 3]) \<noteq> length (map Num [1, 1 / 2, 3, 0, 4, 0, 5, 9])
   \<and> process_rdf [''100 2\<newline>'', ''1 0.5 1.0 0 2.0 0 3.0\<newline>'',
                   ''200 2\<newline>'', ''1 0.5 3.0 0 4.0 0 5.0 9.0\<newline>'']
     = Inr ([Num (1 / 2)], [Num 2], [Num 3], [Num 4])"
  by (simp add: rdf_run str_eval float_eval)

text \<open>
  C2, amended: \<^verbatim>\<open>process_rdf\<close> has no validation step of its own. Each collected block is
  a rectangular table; a result is returned exactly when there is a block, every block
  has a row and at least seven columns, and all blocks have the row count of the first;
  blocks that pass the column test but differ in row count raise \<^verbatim>\<open>ValueError\<close> when the
  columns are stacked. The column counts of different blocks are never compared.
\<close>

theorem rdf_shape_check:
  "(collect_blocks lines = Inr blocks \<longrightarrow>
      list_all rectangular blocks
      \<and> ((\<exists>res. process_rdf lines = Inr res) \<longleftrightarrow> well_shaped blocks))
   \<and> (collect_blocks lines = Inr blocks \<and> blocks \<noteq> []
        \<and> list_all (\<lambda>b. b \<noteq> [] \<and> 6 < length (hd b)) blocks
        \<and> \<not> list_all (\<lambda>b. length b = length (hd blocks)) blocks \<longrightarrow>
        process_rdf lines = Inl ValueError)"
proof (intro conjI impI)
  assume c: "collect_blocks lines = Inr blocks"
  then show "list_all rectangular blocks" by (rule collect_blocks_rectangular)
  from c have p: "process_rdf lines = average_blocks blocks" by (simp add: process_rdf_def)
  show "(\<exists>res. process_rdf lines = Inr res) \<longleftrightarrow> well_shaped blocks"
    unfolding p using average_blocks_Inr average_blocks_ok by blast
next
  assume a: "collect_blocks lines = Inr blocks \<and> blocks \<noteq> []
        \<and> list_all (\<lambda>b. b \<noteq> [] \<and> 6 < length (hd b)) blocks
        \<and> \<not> list_all (\<lambda>b. length b = length (hd blocks)) blocks"
  then have p: "process_rdf lines = average_blocks blocks" by (clarsimp simp: process_rdf_def)
  from a show "process_rdf lines = Inl ValueError"
    unfolding p by (intro average_blocks_rows_differ) simp_all
qed

theorem rdf_shape_check_witness:
  "collect_blocks [''100 2\<newline>'', ''1 0.5 1.0 0 2.0 0 3.0\<newline>'',
                   ''200 2\<newline>'', ''1 0.5 3.0 0 4.0 0 5.0 9.0\<newline>'']
     = Inr [[map Num [1, 1 / 2, 1, 0, 2, 0, 3]], [map Num [1, 1 / 2, 3, 0, 4, 0, 5, 9]]]
   \<and> well_shaped [[map Num [1, 1 / 2, 1, 0, 2, 0, 3]], [map Num [1, 1 / 2, 3, 0, 4, 0, 5, 9]]]
   \<and> (\<exists>res. process_rdf [''100 2\<newline>'', ''1 0.5 1.0 0 2.0 0 3.0\<newline>'',
                   ''200 2\<newline>'', ''1 0.5 3.0 0 4.0 0 5.0 9.0\<newline>''] = Inr res)
   \<and> collect_blocks [''100 2\<newline>'', ''1 0.5 1.0 0 2.0 0 3.0\<newline>'', ''2 1.5 2.0 0 3.0 0 4.0\<newline>'',
                   ''200 2\<newline>'', ''1 0.5 3.0 0 4.0 0 5.0\<newline>'']
     = Inr [[map Num [1, 1 / 2, 1, 0, 2, 0, 3], map Num [2, 3 / 2, 2, 0, 3, 0, 4]],
            [map Num [1, 1 / 2, 3, 0, 4, 0, 5]]]
   \<and> process_rdf [''100 2\<newline>'', ''1 0.5 1.0 0 2.0 0 3.0\<newline>'', ''2 1.5 2.0 0 3.0 0 4.0\<newline>'',
                   ''200 2\<newline>'', ''1 0.5 3.0 0 4.0 0 5.0\<newline>'']
     = Inl ValueError"
proof -
  let ?f = "[''100 2\<newline>'', ''1 0.5 1.0 0 2.0 0 3.0\<newline>'',
             ''200 2\<newline>'', ''1 0.5 3.0 0 4.0 0 5.0 9.0\<newline>'']"
  let ?bs = "[[map Num [1, 1 / 2, 1, 0, 2, 0, 3]], [map Num [1, 1 / 2, 3, 0, 4, 0, 5, 9]]]"
  let ?g = "[''100 2\<newline>'', ''1 0.5 1.0 0 2.0 0 3.0\<newline>'', ''2 1.5 2.0 0 3.0 0 4.0\<newline>'',
             ''200 2\<newline>'', ''1 0.5 3.0 0 4.0 0 5.0\<newline>'']"
  let ?cs = "[[map Num [1, 1 / 2, 1, 0, 2, 0, 3], map Num [2, 3 / 2, 2, 0, 3, 0, 4]],
            [map Num [1, 1 / 2, 3, 0, 4, 0, 5]]]"
  note main = rdf_shape_check
  have cf: "collect_blocks ?f = Inr ?bs"
    by (simp add: collect_blocks_def close_last_def np_array_def Let_def str_eval float_eval)
  have ws: "well_shaped ?bs" by (simp add: well_shaped_def)
  from main [of ?f ?bs, THEN conjunct1] cf
  have "(\<exists>res. process_rdf ?f = Inr res) \<longleftrightarrow> well_shaped ?bs" by blast
  with ws have ex: "\<exists>res. process_rdf ?f = Inr res" by (rule iffD2[rotated])
  have cg: "collect_blocks ?g = Inr ?cs"
    by (simp add: collect_blocks_def close_last_def np_array_def Let_def str_eval float_eval)
  have "collect_blocks ?g = Inr ?cs \<and> ?cs \<noteq> []
        \<and> list_all (\<lambda>b. b \<noteq> [] \<and> 6 < length (hd b)) ?cs
        \<and> \<not> list_all (\<lambda>b. length b = length (hd ?cs)) ?cs"
    using cg by simp
  with main [of ?g ?cs, THEN conjunct2]
  have ve: "process_rdf ?g = Inl ValueError" by (rule mp)
  show ?thesis by (intro conjI cf ws ex cg ve)
qed

section \<open>The scanner: properties\<close>

lemma not_digit_underscore: "\<not> is_digit (CHR ''_'')" and not_digit_newline: "\<not> is_digit (CHR ''\<newline>'')"
  by (simp_all add: is_digit_def)

lemma startswith_append: "startswith s p \<longleftrightarrow> (\<exists>r. s = p @ r)"
  unfolding startswith_def
  by (metis append_eq_conv_conj append_take_drop_id)

lemma takeWhile_digits_stop:
  "list_all is_digit g \<Longrightarrow> r = [] \<or> \<not> is_digit (hd r) \<Longrightarrow>
   takeWhile is_digit (g @ r) = g \<and> dropWhile is_digit (g @ r) = r"
proof (induction g)
  case Nil
  then show ?case by (cases r) auto
next
  case (Cons c g)
  then show ?case by simp
qed

lemma tp_dir_match_accepts:
  assumes "g1 \<noteq> []" "g2 \<noteq> []" "list_all is_digit g1" "list_all is_digit g2"
    and "e = [] \<or> e = ''\<newline>''"
  shows "tp_dir_match (''T_'' @ g1 @ ''_P_'' @ g2 @ e) = Some (g1, g2)"
proof -
  have a: "takeWhile is_digit (g1 @ CHR ''_'' # CHR ''P'' # CHR ''_'' # g2 @ e) = g1
      \<and> dropWhile is_digit (g1 @ CHR ''_'' # CHR ''P'' # CHR ''_'' # g2 @ e)
          = CHR ''_'' # CHR ''P'' # CHR ''_'' # g2 @ e"
    using assms(3) by (intro takeWhile_digits_stop) (simp_all add: not_digit_underscore)
  have b: "takeWhile is_digit (g2 @ e) = g2 \<and> dropWhile is_digit (g2 @ e) = e"
    using assms(4,5) by (intro takeWhile_digits_stop) (auto simp: not_digit_newline)
  show ?thesis
    using assms(1,2,4,5)
    by (auto simp: tp_dir_match_def startswith_def a b Let_def list_all_iff)
qed

lemma tp_dir_match_Some:
  assumes "tp_dir_match name = Some (g1, g2)"
  shows "g1 \<noteq> [] \<and> g2 \<noteq> [] \<and> list_all is_digit g1 \<and> list_all is_digit g2
     \<and> (\<exists>e. (e = [] \<or> e = ''\<newline>'') \<and> name = ''T_'' @ g1 @ ''_P_'' @ g2 @ e)"
proof -
  let ?r1 = "drop 2 name"
  let ?r2 = "dropWhile is_digit ?r1"
  let ?r3 = "drop 3 ?r2"
  let ?r4 = "dropWhile is_digit ?r3"
  from assms have s1: "startswith name ''T_''"
    and g1: "g1 = takeWhile is_digit ?r1" and n1: "g1 \<noteq> []"
    and s2: "startswith ?r2 ''_P_''"
    and g2: "g2 = takeWhile is_digit ?r3" and n2: "g2 \<noteq> []"
    and r4: "?r4 = [] \<or> ?r4 = ''\<newline>''"
    by (auto simp: tp_dir_match_def Let_def split: if_splits)
  from s1 have e1: "name = ''T_'' @ ?r1"
    by (metis append_take_drop_id length_Cons list.size(3) numeral_2_eq_2 startswith_def)
  have e2: "?r1 = g1 @ ?r2" unfolding g1 by simp
  from s2 have e3: "?r2 = ''_P_'' @ ?r3"
    by (metis append_take_drop_id length_Cons list.size(3) numeral_3_eq_3 startswith_def)
  have e4: "?r3 = g2 @ ?r4" unfolding g2 by simp
  have d1: "list_all is_digit g1" unfolding g1 list_all_iff by (auto dest: set_takeWhileD)
  have d2: "list_all is_digit g2" unfolding g2 list_all_iff by (auto dest: set_takeWhileD)
  have "name = ''T_'' @ g1 @ ''_P_'' @ g2 @ ?r4"
    using e1 e2 e3 e4 by (metis append_assoc)
  with r4 n1 n2 d1 d2 show ?thesis by blast
qed

lemmas scan_eval = tp_dir_match_def find_tp_ancestor_def path_parents_def path_name_def
  path_parent_def py_int_def key_of_def setdefault_def dens_paths_def calc_paths_def all_keys_def
  is_digit_def digit_val_def digits_nat_def startswith_def Let_def

lemma tp_dir_match_iff:
  "tp_dir_match name = Some (g1, g2) \<longleftrightarrow>
     g1 \<noteq> [] \<and> g2 \<noteq> [] \<and> list_all is_digit g1 \<and> list_all is_digit g2
     \<and> (name = ''T_'' @ g1 @ ''_P_'' @ g2 \<or> name = ''T_'' @ g1 @ ''_P_'' @ g2 @ ''\<newline>'')"
proof
  assume "tp_dir_match name = Some (g1, g2)"
  from tp_dir_match_Some[OF this]
  show "g1 \<noteq> [] \<and> g2 \<noteq> [] \<and> list_all is_digit g1 \<and> list_all is_digit g2
     \<and> (name = ''T_'' @ g1 @ ''_P_'' @ g2 \<or> name = ''T_'' @ g1 @ ''_P_'' @ g2 @ ''\<newline>'')"
    by auto
next
  assume a: "g1 \<noteq> [] \<and> g2 \<noteq> [] \<and> list_all is_digit g1 \<and> list_all is_digit g2
     \<and> (name = ''T_'' @ g1 @ ''_P_'' @ g2 \<or> name = ''T_'' @ g1 @ ''_P_'' @ g2 @ ''\<newline>'')"
  then consider "name = ''T_'' @ g1 @ ''_P_'' @ g2 @ []"
    | "name = ''T_'' @ g1 @ ''_P_'' @ g2 @ ''\<newline>''" by auto
  then show "tp_dir_match name = Some (g1, g2)"
  proof cases
    case 1
    show ?thesis unfolding 1 using a by (intro tp_dir_match_accepts) simp_all
  next
    case 2
    show ?thesis unfolding 2 using a by (intro tp_dir_match_accepts) simp_all
  qed
qed

text \<open>
  C7: the pattern accepts \<^verbatim>\<open>T_313_P_1\<close> and \<^verbatim>\<open>T_100_P_20\<close> with the keys (313, 1) and
  (100, 20) and rejects \<^verbatim>\<open>Temp_313_Press_1\<close> and \<^verbatim>\<open>T_313P_1\<close>; it is anchored at both ends
  but for one case: \<^verbatim>\<open>$\<close> also matches before a final newline, so a directory whose name
  is \<^verbatim>\<open>T_313_P_1\<close> followed by a newline is taken for the condition (313, 1).
\<close>

theorem tp_dir_match_trailing_newline:
  "(tp_dir_match name = Some (g1, g2) \<longleftrightarrow>
      g1 \<noteq> [] \<and> g2 \<noteq> [] \<and> list_all is_digit g1 \<and> list_all is_digit g2
      \<and> (name = ''T_'' @ g1 @ ''_P_'' @ g2 \<or> name = ''T_'' @ g1 @ ''_P_'' @ g2 @ ''\<newline>''))
   \<and> tp_dir_match ''T_313_P_1'' = Some (''313'', ''1'')
   \<and> tp_dir_match ''T_100_P_20'' = Some (''100'', ''20'')
   \<and> (py_int ''313'', py_int ''1'') = (313, 1) \<and> (py_int ''100'', py_int ''20'') = (100, 20)
   \<and> tp_dir_match ''Temp_313_Press_1'' = None
   \<and> tp_dir_match ''T_313P_1'' = None
   \<and> tp_dir_match ''xT_313_P_1'' = None
   \<and> tp_dir_match ''T_313_P_1x'' = None
   \<and> tp_dir_match ''T_313_P_1\<newline>'' = Some (''313'', ''1'')
   \<and> find_tp_ancestor (\<lambda>p. True) [''runs'', ''T_313_P_1\<newline>'', ''out''] =
        Some (313, 1, [''runs'', ''T_313_P_1\<newline>''])"
proof (intro conjI)
  show "tp_dir_match name = Some (g1, g2) \<longleftrightarrow>
      g1 \<noteq> [] \<and> g2 \<noteq> [] \<and> list_all is_digit g1 \<and> list_all is_digit g2
      \<and> (name = ''T_'' @ g1 @ ''_P_'' @ g2 \<or> name = ''T_'' @ g1 @ ''_P_'' @ g2 @ ''\<newline>'')"
    by (rule tp_dir_match_iff)
qed (simp_all add: scan_eval)

section \<open>The aggregator and the report: properties\<close>

lemma map_of_setdefault:
  "map_of (setdefault d k v) k' =
     (case map_of d k' of Some x \<Rightarrow> Some x | None \<Rightarrow> if k' = k then Some v else None)"
  by (auto simp: setdefault_def map_add_def split: option.splits)

lemma scan_files_step:
  "scan_files isd (f # fs) paths =
     (case key_of isd f of
        None \<Rightarrow> scan_files isd fs paths
      | Some k \<Rightarrow> scan_files isd fs (setdefault paths k f))"
  by (auto simp: key_of_def split: option.splits)

lemma map_of_scan_files:
  "map_of (scan_files isd fs paths) k =
     (case map_of paths k of
        Some f \<Rightarrow> Some f
      | None \<Rightarrow> List.find (\<lambda>f. key_of isd f = Some k) fs)"
proof (induction fs arbitrary: paths)
  case Nil
  show ?case by (simp split: option.splits)
next
  case (Cons f fs)
  show ?case
    unfolding scan_files_step
    by (auto simp: Cons.IH map_of_setdefault split: option.splits)
qed

lemma map_of_set_field_other:
  "k' \<noteq> k \<Longrightarrow> map_of (set_field records k name v) k' = map_of records k'"
  by (induction records) (auto simp: set_field_def)

lemma map_of_aggregate_key_other:
  assumes "k' \<noteq> k"
  shows "map_of (aggregate_key tree dp cp records k) k' = map_of records k'"
proof -
  have s: "map_of (setdefault records k Map.empty) k' = map_of records k'"
    using assms by (simp add: map_of_setdefault split: option.splits)
  show ?thesis
    using assms
    by (simp add: aggregate_key_def Let_def map_of_set_field_other s
        split: option.splits sum.splits prod.splits)
qed

lemma set_field_last:
  "k \<notin> fst ` set records \<Longrightarrow>
   set_field (records @ [(k, r)]) k name v = records @ [(k, r(name \<mapsto> v))]"
  by (induction records) (auto simp: set_field_def)

lemma aggregate_key_new:
  assumes "k \<notin> fst ` set records"
  shows "aggregate_key tree dp cp records k = records @ [(k, record_of tree dp cp k)]"
proof -
  from assms have "map_of records k = None" by (simp add: map_of_eq_None_iff)
  then have s: "setdefault records k Map.empty = records @ [(k, Map.empty)]"
    by (simp add: setdefault_def)
  show ?thesis
    by (simp add: aggregate_key_def record_of_def Let_def s set_field_last[OF assms]
        split: option.splits sum.splits prod.splits)
qed

lemma foldl_aggregate_key:
  "distinct ks \<Longrightarrow>
   foldl (aggregate_key tree dp cp) [] ks = map (\<lambda>k. (k, record_of tree dp cp k)) ks"
proof (induction ks rule: rev_induct)
  case Nil
  show ?case by simp
next
  case (snoc k ks)
  then have ih: "foldl (aggregate_key tree dp cp) [] ks = map (\<lambda>k. (k, record_of tree dp cp k)) ks"
    and k: "k \<notin> set ks" by simp_all
  from k have "k \<notin> fst ` set (map (\<lambda>k. (k, record_of tree dp cp k)) ks)"
    by (auto simp: image_iff)
  from aggregate_key_new[OF this] show ?case by (simp add: ih)
qed

lemma distinct_all_keys: "distinct (all_keys dp cp)"
  by (simp add: all_keys_def)

lemma sorted_all_keys: "sorted (all_keys dp cp)"
  by (simp add: all_keys_def)

lemma set_all_keys: "set (all_keys dp cp) = fst ` set dp \<union> fst ` set cp"
  by (simp add: all_keys_def)

lemma collect_records_eq:
  "collect_records tree =
     map (\<lambda>k. (k, record_of tree (dens_paths tree) (calc_paths tree) k))
       (all_keys (dens_paths tree) (calc_paths tree))"
  by (simp add: collect_records_def foldl_aggregate_key distinct_all_keys)

lemma map_of_graph: "k \<in> set ks \<Longrightarrow> map_of (map (\<lambda>k. (k, f k)) ks) k = Some (f k)"
  by (induction ks) auto

lemma result_rows_graph:
  "set ks' \<subseteq> set ks \<Longrightarrow>
   result_rows fixed sci (map (\<lambda>k. (k, f k)) ks) ks' = Inr (map (\<lambda>k. result_row fixed sci k (f k)) ks')"
  by (induction ks') (simp_all add: map_of_graph)

lemma results_lines_graph:
  "sorted ks \<Longrightarrow> distinct ks \<Longrightarrow>
   results_lines fixed sci (map (\<lambda>k. (k, f k)) ks)
     = Inr (header_line # map (\<lambda>k. result_row fixed sci k (f k)) ks)"
proof -
  assume s: "sorted ks" and "distinct ks"
  have m: "map fst (map (\<lambda>k. (k, f k)) ks) = ks" by (simp add: comp_def)
  from s have so: "sort ks = ks" by (rule sorted_sort_id)
  show ?thesis
    unfolding results_lines_def m so by (simp add: result_rows_graph)
qed

lemma result_row_missing:
  "rec ''density'' = None \<or> rec ''self_diffusion'' = None \<or> rec ''viscosity'' = None \<Longrightarrow>
   result_row fixed sci k rec = missing_row k"
  by (auto simp: result_row_def missing_row_def rjust_def eval_nat_numeral split: option.splits)

lemma result_row_full:
  "rec ''density'' = Some dens \<Longrightarrow> rec ''self_diffusion'' = Some diff \<Longrightarrow>
   rec ''viscosity'' = Some visc \<Longrightarrow>
   result_row fixed sci k rec =
     rjust 8 (str_int (fst k)) @ '' '' @ rjust 8 (str_int (snd k)) @ '' ''
     @ fixed dens @ '' '' @ sci diff @ '' '' @ sci visc"
  by (simp add: result_row_def)

text \<open>
  C8: a path stored for a condition key survives every later step of the scan, so the
  first file found for a key is the one kept; processing one key in the loop of \<^verbatim>\<open>main\<close>
  leaves the record of every other key as it is, the keys of the loop are distinct, and
  so a record, once built, is the same at every later point of the loop.
\<close>

theorem records_monotone:
  "(map_of paths k = Some f \<longrightarrow> map_of (scan_files isd fs paths) k = Some f)
   \<and> map_of (scan_files isd fs []) k = List.find (\<lambda>f. key_of isd f = Some k) fs
   \<and> (k' \<noteq> k \<longrightarrow> map_of (aggregate_key tree dp cp records k) k' = map_of records k')
   \<and> distinct (all_keys dp cp)
   \<and> (distinct (ks1 @ ks2) \<and> map_of (foldl (aggregate_key tree dp cp) [] ks1) k = Some rec \<longrightarrow>
        map_of (foldl (aggregate_key tree dp cp) [] (ks1 @ ks2)) k = Some rec)"
proof (intro conjI impI)
  assume "map_of paths k = Some f"
  then show "map_of (scan_files isd fs paths) k = Some f"
    by (simp add: map_of_scan_files)
next
  show "map_of (scan_files isd fs []) k = List.find (\<lambda>f. key_of isd f = Some k) fs"
    by (simp add: map_of_scan_files)
next
  assume "k' \<noteq> k"
  then show "map_of (aggregate_key tree dp cp records k) k' = map_of records k'"
    by (rule map_of_aggregate_key_other)
next
  show "distinct (all_keys dp cp)" by (rule distinct_all_keys)
next
  assume a: "distinct (ks1 @ ks2) \<and> map_of (foldl (aggregate_key tree dp cp) [] ks1) k = Some rec"
  let ?g = "\<lambda>k. (k, record_of tree dp cp k)"
  from a have d: "distinct (ks1 @ ks2)" and d1: "distinct ks1" by simp_all
  from a have m: "map_of (map ?g ks1) k = Some rec"
    by (simp add: foldl_aggregate_key[OF d1])
  then have "k \<in> fst ` set (map ?g ks1)" by (rule map_of_SomeD[THEN imageI, of _ _ _ fst, simplified])
  then have k1: "k \<in> set ks1" by (auto simp: image_iff)
  with m have r: "rec = record_of tree dp cp k" by (simp add: map_of_graph)
  from k1 have "k \<in> set (ks1 @ ks2)" by simp
  then have "map_of (map ?g (ks1 @ ks2)) k = Some (record_of tree dp cp k)" by (rule map_of_graph)
  then show "map_of (foldl (aggregate_key tree dp cp) [] (ks1 @ ks2)) k = Some rec"
    unfolding foldl_aggregate_key[OF d] r .
qed

lemma example_dens_paths:
  "dens_paths example_tree =
     [((500, 2), [''run'', ''T_500_P_2'', ''GlobalPropsTimeAvg.prop'']),
      ((313, 1), [''run'', ''T_313_P_1'', ''GlobalPropsTimeAvg.prop'']),
      ((400, 1), [''run'', ''T_400_P_1'', ''GlobalPropsTimeAvg.prop''])]"
  by (simp add: example_tree_def scan_eval)

lemma example_calc_paths:
  "calc_paths example_tree =
     [((500, 2), [''run'', ''T_500_P_2'', ''GlobalPropCalculated.prop'']),
      ((313, 1), [''run'', ''T_313_P_1'', ''GlobalPropCalculated.prop''])]"
  by (simp add: example_tree_def scan_eval)

lemma example_all_keys:
  "all_keys (dens_paths example_tree) (calc_paths example_tree) = [(313, 1), (400, 1), (500, 2)]"
  by (simp add: example_dens_paths example_calc_paths all_keys_def)

lemma example_str: "str_int 313 = ''313''" "str_int 400 = ''400''" "str_int 500 = ''500''"
  "str_int 1 = ''1''" "str_int 2 = ''2''"
  by (simp_all add: str_int_def str_nat.simps)

lemmas file_eval = avg_density_at_def last_diff_visc_at_def open_text_def

lemma example_record_313:
  "record_of example_tree (dens_paths example_tree) (calc_paths example_tree) (313, 1)
     = [''density'' \<mapsto> Num 1001, ''self_diffusion'' \<mapsto> Num (2 / 10 ^ 9), ''viscosity'' \<mapsto> Num (6 / 10)]"
  unfolding example_dens_paths example_calc_paths
  by (simp add: record_of_def example_tree_def file_eval avg_density_def kv_eval str_eval float_eval)

lemma example_record_400:
  "record_of example_tree (dens_paths example_tree) (calc_paths example_tree) (400, 1) = Map.empty"
  unfolding example_dens_paths example_calc_paths
  by (simp add: record_of_def)

lemma example_record_500:
  "record_of example_tree (dens_paths example_tree) (calc_paths example_tree) (500, 2)
     = [''density'' \<mapsto> Num (1601 / 2)]"
  unfolding example_dens_paths example_calc_paths
  by (simp add: record_of_def example_tree_def file_eval avg_density_def kv_eval str_eval float_eval)

lemma example_records:
  "collect_records example_tree =
     [((313, 1), [''density'' \<mapsto> Num 1001, ''self_diffusion'' \<mapsto> Num (2 / 10 ^ 9),
                  ''viscosity'' \<mapsto> Num (6 / 10)]),
      ((400, 1), Map.empty),
      ((500, 2), [''density'' \<mapsto> Num (1601 / 2)])]"
  unfolding collect_records_eq example_all_keys
  by (simp only: list.map example_record_313 example_record_400 example_record_500)

lemma example_rows:
  "results_lines fixed sci (collect_records example_tree) =
     Inr [''    T(K)   P(bar)      Density        SelfDiff       Viscosity'',
          ''     313        1 '' @ fixed (Num 1001) @ '' '' @ sci (Num (2 / 10 ^ 9)) @ '' ''
            @ sci (Num (6 / 10)),
          ''     400        1      MISSING                                '',
          ''     500        2      MISSING                                '']"
  unfolding example_records
  by (simp add: results_lines_def result_row_def header_line_def rjust_def example_str
      eval_nat_numeral)

text \<open>
  C1, as stated, fails. In the example tree the condition (400, 1) has a density file
  that parses to 900.0 and no key/value file: no parse is attempted, the record stays
  empty, and its row shows \<^verbatim>\<open>MISSING\<close> in the density column and blanks in the two others.
  The condition (500, 2), whose key/value file lacks the viscosity, keeps its density in
  the record and is written as the same kind of row.
\<close>

theorem report_only_density_counterexample:
  "avg_density_at example_tree [''run'', ''T_400_P_1'', ''GlobalPropsTimeAvg.prop''] = Inr (Num 900)
   \<and> map_of (dens_paths example_tree) (400, 1) = Some [''run'', ''T_400_P_1'', ''GlobalPropsTimeAvg.prop'']
   \<and> map_of (calc_paths example_tree) (400, 1) = None
   \<and> map (\<lambda>(k, r). (k, r ''density'', r ''self_diffusion'', r ''viscosity''))
        (collect_records example_tree)
       = [((313, 1), Some (Num 1001), Some (Num (2 / 10 ^ 9)), Some (Num (6 / 10))),
          ((400, 1), None, None, None),
          ((500, 2), Some (Num (1601 / 2)), None, None)]
   \<and> results_lines (\<lambda>x. ''(12.6f)'') (\<lambda>x. ''(15.6e)'') (collect_records example_tree) =
       Inr [''    T(K)   P(bar)      Density        SelfDiff       Viscosity'',
            ''     313        1 (12.6f) (15.6e) (15.6e)'',
            ''     400        1      MISSING                                '',
            ''     500        2      MISSING                                '']"
proof (intro conjI)
  show "avg_density_at example_tree [''run'', ''T_400_P_1'', ''GlobalPropsTimeAvg.prop''] = Inr (Num 900)"
    by (simp add: example_tree_def file_eval avg_density_def str_eval float_eval)
  show "map_of (dens_paths example_tree) (400, 1) = Some [''run'', ''T_400_P_1'', ''GlobalPropsTimeAvg.prop'']"
    by (simp add: example_dens_paths)
  show "map_of (calc_paths example_tree) (400, 1) = None"
    by (simp add: example_calc_paths)
  show "map (\<lambda>(k, r). (k, r ''density'', r ''self_diffusion'', r ''viscosity''))
        (collect_records example_tree)
       = [((313, 1), Some (Num 1001), Some (Num (2 / 10 ^ 9)), Some (Num (6 / 10))),
          ((400, 1), None, None, None),
          ((500, 2), Some (Num (1601 / 2)), None, None)]"
    by (simp add: example_records)
  show "results_lines (\<lambda>x. ''(12.6f)'') (\<lambda>x. ''(15.6e)'') (collect_records example_tree) =
       Inr [''    T(K)   P(bar)      Density        SelfDiff       Viscosity'',
            ''     313        1 (12.6f) (15.6e) (15.6e)'',
            ''     400        1      MISSING                                '',
            ''     500        2      MISSING                                '']"
    by (simp add: example_rows)
qed

text \<open>
  C1, amended: \<^verbatim>\<open>main\<close> builds one record per key of the union of both searches, in
  key order, and the report has one row per key after the header. The parses are run
  only for a key with both files, the density first and the key/value parse only after
  the density parse succeeded; a parse that fails leaves the fields not yet assigned
  unset. A row shows the three numbers when all three fields are set; any other row
  shows \<^verbatim>\<open>MISSING\<close> in the density column and blanks in the diffusion and viscosity
  columns.
\<close>

theorem report_rows:
  "collect_records tree =
     map (\<lambda>k. (k, record_of tree (dens_paths tree) (calc_paths tree) k))
       (all_keys (dens_paths tree) (calc_paths tree))
   \<and> set (all_keys (dens_paths tree) (calc_paths tree))
       = fst ` set (dens_paths tree) \<union> fst ` set (calc_paths tree)
   \<and> sorted (all_keys (dens_paths tree) (calc_paths tree))
   \<and> distinct (all_keys (dens_paths tree) (calc_paths tree))
   \<and> results_lines fixed sci (collect_records tree) =
       Inr (header_line #
            map (\<lambda>k. result_row fixed sci k (record_of tree (dens_paths tree) (calc_paths tree) k))
              (all_keys (dens_paths tree) (calc_paths tree)))
   \<and> (rec ''density'' = None \<or> rec ''self_diffusion'' = None \<or> rec ''viscosity'' = None \<longrightarrow>
        result_row fixed sci k rec = missing_row k)
   \<and> (rec ''density'' = Some dens \<and> rec ''self_diffusion'' = Some diff
        \<and> rec ''viscosity'' = Some visc \<longrightarrow>
        result_row fixed sci k rec =
          rjust 8 (str_int (fst k)) @ '' '' @ rjust 8 (str_int (snd k)) @ '' ''
          @ fixed dens @ '' '' @ sci diff @ '' '' @ sci visc)
   \<and> (map_of dp k = None \<or> map_of cp k = None \<longrightarrow> record_of tree dp cp k = Map.empty)
   \<and> (map_of dp k = Some d \<and> map_of cp k = Some c \<and> avg_density_at tree d = Inl e \<longrightarrow>
        record_of tree dp cp k = Map.empty)
   \<and> (map_of dp k = Some d \<and> map_of cp k = Some c \<and> avg_density_at tree d = Inr dens
        \<and> last_diff_visc_at tree c = Inl e \<longrightarrow>
        record_of tree dp cp k = [''density'' \<mapsto> dens])
   \<and> (map_of dp k = Some d \<and> map_of cp k = Some c \<and> avg_density_at tree d = Inr dens
        \<and> last_diff_visc_at tree c = Inr (diff, visc) \<longrightarrow>
        record_of tree dp cp k =
          [''density'' \<mapsto> dens, ''self_diffusion'' \<mapsto> diff, ''viscosity'' \<mapsto> visc])"
proof (intro conjI impI)
  show "collect_records tree =
     map (\<lambda>k. (k, record_of tree (dens_paths tree) (calc_paths tree) k))
       (all_keys (dens_paths tree) (calc_paths tree))"
    by (rule collect_records_eq)
  show "set (all_keys (dens_paths tree) (calc_paths tree))
       = fst ` set (dens_paths tree) \<union> fst ` set (calc_paths tree)"
    by (rule set_all_keys)
  show "sorted (all_keys (dens_paths tree) (calc_paths tree))" by (rule sorted_all_keys)
  show "distinct (all_keys (dens_paths tree) (calc_paths tree))" by (rule distinct_all_keys)
  show "results_lines fixed sci (collect_records tree) =
       Inr (header_line #
            map (\<lambda>k. result_row fixed sci k (record_of tree (dens_paths tree) (calc_paths tree) k))
              (all_keys (dens_paths tree) (calc_paths tree)))"
    unfolding collect_records_eq
    by (rule results_lines_graph[OF sorted_all_keys distinct_all_keys])
next
  assume "rec ''density'' = None \<or> rec ''self_diffusion'' = None \<or> rec ''viscosity'' = None"
  then show "result_row fixed sci k rec = missing_row k" by (rule result_row_missing)
next
  assume "rec ''density'' = Some dens \<and> rec ''self_diffusion'' = Some diff
        \<and> rec ''viscosity'' = Some visc"
  then show "result_row fixed sci k rec =
          rjust 8 (str_int (fst k)) @ '' '' @ rjust 8 (str_int (snd k)) @ '' ''
          @ fixed dens @ '' '' @ sci diff @ '' '' @ sci visc"
    by (intro result_row_full) simp_all
next
  assume "map_of dp k = None \<or> map_of cp k = None"
  then show "record_of tree dp cp k = Map.empty"
    by (auto simp: record_of_def split: option.splits)
next
  assume "map_of dp k = Some d \<and> map_of cp k = Some c \<and> avg_density_at tree d = Inl e"
  then show "record_of tree dp cp k = Map.empty"
    by (clarsimp simp: record_of_def)
next
  assume "map_of dp k = Some d \<and> map_of cp k = Some c \<and> avg_density_at tree d = Inr dens
        \<and> last_diff_visc_at tree c = Inl e"
  then show "record_of tree dp cp k = [''density'' \<mapsto> dens]"
    by (clarsimp simp: record_of_def)
next
  assume "map_of dp k = Some d \<and> map_of cp k = Some c \<and> avg_density_at tree d = Inr dens
        \<and> last_diff_visc_at tree c = Inr (diff, visc)"
  then show "record_of tree dp cp k =
          [''density'' \<mapsto> dens, ''self_diffusion'' \<mapsto> diff, ''viscosity'' \<mapsto> visc]"
    by (clarsimp simp: record_of_def)
qed

theorem report_rows_witness:
  "results_lines (\<lambda>x. ''(12.6f)'') (\<lambda>x. ''(15.6e)'') (collect_records example_tree) =
       Inr [''    T(K)   P(bar)      Density        SelfDiff       Viscosity'',
            ''     313        1 (12.6f) (15.6e) (15.6e)'',
            ''     400        1      MISSING                                '',
            ''     500        2      MISSING                                '']
   \<and> map_of (calc_paths example_tree) (400, 1) = None
   \<and> record_of example_tree (dens_paths example_tree) (calc_paths example_tree) (400, 1) = Map.empty
   \<and> avg_density_at example_tree [''run'', ''T_500_P_2'', ''GlobalPropsTimeAvg.prop'']
       = Inr (Num (1601 / 2))
   \<and> last_diff_visc_at example_tree [''run'', ''T_500_P_2'', ''GlobalPropCalculated.prop'']
       = Inl KeyError
   \<and> record_of example_tree (dens_paths example_tree) (calc_paths example_tree) (500, 2)
       = [''density'' \<mapsto> Num (1601 / 2)]
   \<and> record_of example_tree (dens_paths example_tree) (calc_paths example_tree) (313, 1)
       = [''density'' \<mapsto> Num 1001, ''self_diffusion'' \<mapsto> Num (2 / 10 ^ 9),
          ''viscosity'' \<mapsto> Num (6 / 10)]
   \<and> avg_density_at example_tree [''nowhere''] = Inl OSError
   \<and> record_of example_tree [((1, 1), [''nowhere''])] [((1, 1), [''nowhere''])] (1, 1) = Map.empty
   \<and> result_row (\<lambda>x. ''(12.6f)'') (\<lambda>x. ''(15.6e)'') (500, 2) [''density'' \<mapsto> Num (1601 / 2)]
       = ''     500        2      MISSING                                ''
   \<and> result_row (\<lambda>x. ''(12.6f)'') (\<lambda>x. ''(15.6e)'') (313, 1)
         [''density'' \<mapsto> Num 1001, ''self_diffusion'' \<mapsto> Num (2 / 10 ^ 9),
          ''viscosity'' \<mapsto> Num (6 / 10)]
       = ''     313        1 (12.6f) (15.6e) (15.6e)''"
proof -
  let ?f = "\<lambda>x::pyfloat. ''(12.6f)''" and ?s = "\<lambda>x::pyfloat. ''(15.6e)''"
  let ?dp = "dens_paths example_tree" and ?cp = "calc_paths example_tree"
  let ?d5 = "[''run'', ''T_500_P_2'', ''GlobalPropsTimeAvg.prop'']"
  let ?c5 = "[''run'', ''T_500_P_2'', ''GlobalPropCalculated.prop'']"
  let ?d3 = "[''run'', ''T_313_P_1'', ''GlobalPropsTimeAvg.prop'']"
  let ?c3 = "[''run'', ''T_313_P_1'', ''GlobalPropCalculated.prop'']"
  let ?r5 = "[''density'' \<mapsto> Num (1601 / 2)]"
  let ?r3 = "[''density'' \<mapsto> Num 1001, ''self_diffusion'' \<mapsto> Num (2 / 10 ^ 9),
          ''viscosity'' \<mapsto> Num (6 / 10)]"
  note main = report_rows
  note tl4 = conjunct2[THEN conjunct2, THEN conjunct2, THEN conjunct2]
  have rows: "map (\<lambda>k. result_row ?f ?s k (record_of example_tree ?dp ?cp k))
        [(313, 1), (400, 1), (500, 2)]
      = [''     313        1 (12.6f) (15.6e) (15.6e)'',
         ''     400        1      MISSING                                '',
         ''     500        2      MISSING                                '']"
    by (simp add: example_record_313 example_record_400 example_record_500 result_row_def
        rjust_def example_str eval_nat_numeral)
  have hd: "header_line = ''    T(K)   P(bar)      Density        SelfDiff       Viscosity''"
    by (simp add: header_line_def rjust_def eval_nat_numeral)
  have w1: "results_lines ?f ?s (collect_records example_tree) =
       Inr [''    T(K)   P(bar)      Density        SelfDiff       Viscosity'',
            ''     313        1 (12.6f) (15.6e) (15.6e)'',
            ''     400        1      MISSING                                '',
            ''     500        2      MISSING                                '']"
    using main [of example_tree ?f ?s, THEN tl4, THEN conjunct1]
    unfolding example_all_keys rows hd .
  have c4: "map_of ?cp (400, 1) = None" by (simp add: example_calc_paths)
  then have "map_of ?dp (400, 1) = None \<or> map_of ?cp (400, 1) = None" by (rule disjI2)
  with main [of example_tree ?f ?s Map.empty "(400, 1)" _ _ _ ?dp ?cp,
      THEN tl4, THEN conjunct2, THEN conjunct2, THEN conjunct2, THEN conjunct1]
  have w2: "record_of example_tree ?dp ?cp (400, 1) = Map.empty" by (rule mp)
  have a5: "avg_density_at example_tree ?d5 = Inr (Num (1601 / 2))"
    by (simp add: example_tree_def file_eval avg_density_def str_eval float_eval)
  have l5: "last_diff_visc_at example_tree ?c5 = Inl KeyError"
    by (simp add: example_tree_def file_eval kv_eval str_eval float_eval)
  have "map_of ?dp (500, 2) = Some ?d5 \<and> map_of ?cp (500, 2) = Some ?c5
      \<and> avg_density_at example_tree ?d5 = Inr (Num (1601 / 2))
      \<and> last_diff_visc_at example_tree ?c5 = Inl KeyError"
    using a5 l5 by (simp add: example_dens_paths example_calc_paths)
  with main [of example_tree ?f ?s Map.empty "(500, 2)" "Num (1601 / 2)" _ _ ?dp ?cp ?d5 ?c5 KeyError,
      THEN tl4, THEN tl4, THEN conjunct2, THEN conjunct1]
  have w3: "record_of example_tree ?dp ?cp (500, 2) = ?r5" by (rule mp)
  have a3: "avg_density_at example_tree ?d3 = Inr (Num 1001)"
    by (simp add: example_tree_def file_eval avg_density_def str_eval float_eval)
  have l3: "last_diff_visc_at example_tree ?c3 = Inr (Num (2 / 10 ^ 9), Num (6 / 10))"
    by (simp add: example_tree_def file_eval kv_eval str_eval float_eval)
  have "map_of ?dp (313, 1) = Some ?d3 \<and> map_of ?cp (313, 1) = Some ?c3
      \<and> avg_density_at example_tree ?d3 = Inr (Num 1001)
      \<and> last_diff_visc_at example_tree ?c3 = Inr (Num (2 / 10 ^ 9), Num (6 / 10))"
    using a3 l3 by (simp add: example_dens_paths example_calc_paths)
  with main [of example_tree ?f ?s Map.empty "(313, 1)" "Num 1001" "Num (2 / 10 ^ 9)" "Num (6 / 10)"
        ?dp ?cp ?d3 ?c3,
      THEN tl4, THEN tl4, THEN conjunct2, THEN conjunct2]
  have w4: "record_of example_tree ?dp ?cp (313, 1) = ?r3" by (rule mp)
  have an: "avg_density_at example_tree [''nowhere''] = Inl OSError"
    by (simp add: example_tree_def file_eval)
  then have "map_of [((1, 1), [''nowhere''])] (1, 1) = Some [''nowhere'']
      \<and> map_of [((1, 1), [''nowhere''])] (1, 1) = Some [''nowhere'']
      \<and> avg_density_at example_tree [''nowhere''] = Inl OSError" by simp
  with main [of example_tree ?f ?s Map.empty "(1, 1)" _ _ _ "[((1, 1), [''nowhere''])]"
        "[((1, 1), [''nowhere''])]" "[''nowhere'']" "[''nowhere'']" OSError,
      THEN tl4, THEN tl4, THEN conjunct1]
  have w5: "record_of example_tree [((1, 1), [''nowhere''])] [((1, 1), [''nowhere''])] (1, 1)
      = Map.empty" by (rule mp)
  have m5: "missing_row (500, 2) = ''     500        2      MISSING                                ''"
    by (simp add: missing_row_def rjust_def example_str eval_nat_numeral)
  have "?r5 ''density'' = None \<or> ?r5 ''self_diffusion'' = None \<or> ?r5 ''viscosity'' = None"
    by simp
  with main [of example_tree ?f ?s ?r5 "(500, 2)", THEN tl4, THEN conjunct2, THEN conjunct1]
  have "result_row ?f ?s (500, 2) ?r5 = missing_row (500, 2)" by (rule mp)
  then have w6: "result_row ?f ?s (500, 2) ?r5
      = ''     500        2      MISSING                                ''"
    unfolding m5 .
  have "?r3 ''density'' = Some (Num 1001) \<and> ?r3 ''self_diffusion'' = Some (Num (2 / 10 ^ 9))
      \<and> ?r3 ''viscosity'' = Some (Num (6 / 10))" by simp
  with main [of example_tree ?f ?s ?r3 "(313, 1)" "Num 1001" "Num (2 / 10 ^ 9)" "Num (6 / 10)",
      THEN tl4, THEN conjunct2, THEN conjunct2, THEN conjunct1]
  have "result_row ?f ?s (313, 1) ?r3 =
          rjust 8 (str_int (fst (313 :: int, 1 :: int))) @ '' ''
          @ rjust 8 (str_int (snd (313 :: int, 1 :: int))) @ '' ''
          @ ?f (Num 1001) @ '' '' @ ?s (Num (2 / 10 ^ 9)) @ '' '' @ ?s (Num (6 / 10))"
    by (rule mp)
  then have w7: "result_row ?f ?s (313, 1) ?r3 = ''     313        1 (12.6f) (15.6e) (15.6e)''"
    by (simp add: rjust_def example_str eval_nat_numeral)
  show ?thesis by (intro conjI w1 c4 w2 a5 l5 w3 w4 an w5 w6 w7)
qed

theorem records_monotone_witness:
  "map_of [((313 :: int, 1 :: int), [''first''])] (313, 1) = Some [''first'']
   \<and> map_of (scan_files (\<lambda>p. True) [[''run'', ''T_313_P_1'', ''later'']] [((313, 1), [''first''])])
         (313, 1) = Some [''first'']
   \<and> map_of (scan_files (\<lambda>p. True)
         [[''run'', ''T_313_P_1'', ''GlobalPropsTimeAvg.prop''],
          [''run'', ''T_313_P_1'', ''rerun'', ''GlobalPropsTimeAvg.prop'']] []) (313, 1)
       = Some [''run'', ''T_313_P_1'', ''GlobalPropsTimeAvg.prop'']
   \<and> map_of (aggregate_key example_tree (dens_paths example_tree) (calc_paths example_tree)
         [((313, 1), [''density'' \<mapsto> Num 1])] (400, 1)) (313, 1)
       = Some [''density'' \<mapsto> Num 1]
   \<and> distinct ([(313, 1)] @ [(400, 1), (500, 2 :: int)] :: (int \<times> int) list)
   \<and> map_of (foldl (aggregate_key example_tree (dens_paths example_tree) (calc_paths example_tree))
         [] [(313, 1)]) (313, 1)
       = Some [''density'' \<mapsto> Num 1001, ''self_diffusion'' \<mapsto> Num (2 / 10 ^ 9),
               ''viscosity'' \<mapsto> Num (6 / 10)]
   \<and> map_of (foldl (aggregate_key example_tree (dens_paths example_tree) (calc_paths example_tree))
         [] ([(313, 1)] @ [(400, 1), (500, 2)])) (313, 1)
       = Some [''density'' \<mapsto> Num 1001, ''self_diffusion'' \<mapsto> Num (2 / 10 ^ 9),
               ''viscosity'' \<mapsto> Num (6 / 10)]"
proof -
  let ?dp = "dens_paths example_tree" and ?cp = "calc_paths example_tree"
  let ?d3 = "[''run'', ''T_313_P_1'', ''GlobalPropsTimeAvg.prop'']"
  let ?fs = "[?d3, [''run'', ''T_313_P_1'', ''rerun'', ''GlobalPropsTimeAvg.prop'']]"
  let ?r3 = "[''density'' \<mapsto> Num 1001, ''self_diffusion'' \<mapsto> Num (2 / 10 ^ 9),
          ''viscosity'' \<mapsto> Num (6 / 10)]"
  let ?old = "[((313 :: int, 1 :: int), [''density'' \<mapsto> Num 1])]"
  let ?ks1 = "[(313, 1)] :: (int \<times> int) list"
  let ?ks2 = "[(400, 1), (500, 2)] :: (int \<times> int) list"
  note main = records_monotone
  have p: "map_of [((313 :: int, 1 :: int), [''first''])] (313, 1) = Some [''first'']" by simp
  have w1: "map_of (scan_files (\<lambda>p. True) [[''run'', ''T_313_P_1'', ''later'']]
        [((313, 1), [''first''])]) (313, 1) = Some [''first'']"
    using main [of "[((313, 1), [''first''])]" "(313, 1)" "[''first'']" "\<lambda>p. True"
        "[[''run'', ''T_313_P_1'', ''later'']]", THEN conjunct1] p by (rule mp)
  have f: "List.find (\<lambda>f. key_of (\<lambda>p. True) f = Some (313, 1)) ?fs = Some ?d3"
    by (simp add: scan_eval)
  have w2: "map_of (scan_files (\<lambda>p. True) ?fs []) (313, 1) = Some ?d3"
    using main [of "[]" "(313, 1)" "[]" "\<lambda>p. True" ?fs, THEN conjunct2, THEN conjunct1]
    unfolding f .
  have ne: "((313, 1) :: int \<times> int) \<noteq> (400, 1)" by simp
  have "map_of (aggregate_key example_tree ?dp ?cp ?old (400, 1)) (313, 1) = map_of ?old (313, 1)"
    using main [of "[]" "(400, 1)" "[]" "\<lambda>p. True" "[]" "(313, 1)" example_tree ?dp ?cp ?old,
        THEN conjunct2, THEN conjunct2, THEN conjunct1] ne by (rule mp)
  then have w3: "map_of (aggregate_key example_tree ?dp ?cp ?old (400, 1)) (313, 1)
      = Some [''density'' \<mapsto> Num 1]" by simp
  have d: "distinct (?ks1 @ ?ks2)" by simp
  have "foldl (aggregate_key example_tree ?dp ?cp) [] ?ks1
      = map (\<lambda>k. (k, record_of example_tree ?dp ?cp k)) ?ks1"
    by (rule foldl_aggregate_key) simp
  then have h: "map_of (foldl (aggregate_key example_tree ?dp ?cp) [] ?ks1) (313, 1) = Some ?r3"
    by (simp only: list.map map_of.simps example_record_313 fst_conv snd_conv fun_upd_same)
  from d h have "distinct (?ks1 @ ?ks2)
      \<and> map_of (foldl (aggregate_key example_tree ?dp ?cp) [] ?ks1) (313, 1) = Some ?r3"
    by (rule conjI)
  with main [of "[]" "(313, 1)" "[]" "\<lambda>p. True" "[]" "(313, 1)" example_tree ?dp ?cp "[]"
      ?ks1 ?ks2 ?r3, THEN conjunct2, THEN conjunct2, THEN conjunct2, THEN conjunct2]
  have w4: "map_of (foldl (aggregate_key example_tree ?dp ?cp) [] (?ks1 @ ?ks2)) (313, 1)
      = Some ?r3" by (rule mp)
  show ?thesis by (intro conjI p w1 w2 w3 d h w4)
qed


end
